theory Spec2Isabelle
  imports Main "HOL-Library.AList" "HOL-Library.Sublist"
begin

section \<open>JSON values and JavaScript objects\<close>

text \<open>
  The server keeps, for every resource type, an array of records in memory and writes that
  array to \<^verbatim>\<open>database/<type>.json\<close>. Records are what \<^verbatim>\<open>JSON.parse\<close> and
  \<^verbatim>\<open>express.json()\<close> produce: JSON values. A JavaScript object is an ordered list of
  key/value pairs (insertion order, which \<^verbatim>\<open>Object.keys\<close> and \<^verbatim>\<open>JSON.stringify\<close>
  follow for the keys of a record: an integer-like key, which JavaScript would put
  first, is not a key of the schema); \<^verbatim>\<open>undefined\<close> is \<open>None\<close>. Numbers are the integers a
  JavaScript number holds exactly, of magnitude up to \<open>2^53\<close>: a fraction, or a magnitude
  that JavaScript would round or print with an exponent, has no value here. Strings are
  byte strings (UTF-8), so a non-ASCII character of a message of the source is spelled
  by its bytes.
\<close>

datatype json =
    JNull
  | JBool bool
  | JNum int
  | JStr string
  | JArr "json list"
  | JObj "(string \<times> json) list"

type_synonym obj = "(string \<times> json) list"

text \<open>
  Decimal rendering of numbers, as template strings and \<^verbatim>\<open>JSON.stringify\<close> print the
  integers of that range: all digits, no exponent.
\<close>

definition digit_char :: "nat \<Rightarrow> char" where
  "digit_char d = ''0123456789abcdef'' ! d"

function show_nat :: "nat \<Rightarrow> string" where
  "show_nat n =
     (if n < 10 then [digit_char n] else show_nat (n div 10) @ [digit_char (n mod 10)])"
  by pat_completeness auto
termination
  by (relation "measure id") auto

definition show_int :: "int \<Rightarrow> string" where
  "show_int i = (if i < 0 then CHR ''-'' # show_nat (nat (- i)) else show_nat (nat i))"

text \<open>\<^verbatim>\<open>Array.prototype.join\<close> on strings.\<close>

fun join :: "string \<Rightarrow> string list \<Rightarrow> string" where
  "join sep [] = []"
| "join sep [x] = x"
| "join sep (x # y # ys) = x @ sep @ join sep (y # ys)"

definition newline :: string where
  "newline = [CHR 0x0A]"

text \<open>
  Reading an own property, \<^verbatim>\<open>delete o.k\<close>, and defining an own property \<open>k\<close> with value
  \<open>v\<close> (an existing key keeps its place, a new key goes last). Defining is what
  \<^verbatim>\<open>JSON.parse\<close>, an object literal and a spread do for every key, and what the assignment
  \<^verbatim>\<open>o.k = v\<close> does for every key but \<^verbatim>\<open>__proto__\<close>. The spread \<^verbatim>\<open>{...a, ...b}\<close> defines the
  entries of \<open>b\<close> in order on a copy of \<open>a\<close>; a copy of an object has the entries of the
  object.
\<close>

definition get_prop :: "obj \<Rightarrow> string \<Rightarrow> json option" where
  "get_prop ob k = map_of ob k"

definition js_delete :: "string \<Rightarrow> obj \<Rightarrow> obj" where
  "js_delete k ob = AList.delete k ob"

definition js_assign :: "string \<Rightarrow> json \<Rightarrow> obj \<Rightarrow> obj" where
  "js_assign k v ob = AList.update k v ob"

definition js_spread :: "obj \<Rightarrow> obj \<Rightarrow> obj" where
  "js_spread target src = fold (\<lambda>kv acc. js_assign (fst kv) (snd kv) acc) src target"

text \<open>
  The assignment \<^verbatim>\<open>o[k] = v\<close> with a computed key, on an object that inherits from
  \<^verbatim>\<open>Object.prototype\<close>. For the key \<^verbatim>\<open>__proto__\<close>, unless the object has an own property of
  that name, the assignment calls the inherited setter: it replaces the prototype of the
  object (by an object, an array or \<^verbatim>\<open>null\<close>; a primitive value is ignored) and defines
  no own property. A prototype set this way has plain data properties only, which
  neither \<^verbatim>\<open>Object.keys\<close> nor a spread nor a later assignment sees.
\<close>

definition js_set :: "string \<Rightarrow> json \<Rightarrow> obj \<Rightarrow> obj" where
  "js_set k v ob =
     (if k = ''__proto__'' \<and> get_prop ob k = None then ob else js_assign k v ob)"

text \<open>
  The own enumerable properties a spread \<^verbatim>\<open>{...v}\<close> copies: the entries of an object,
  the indexed elements of an array. A request body is an object or an array
  (\<^verbatim>\<open>express.json\<close> accepts nothing else), so the other cases do not arise.
\<close>

fun entries :: "json \<Rightarrow> obj" where
  "entries (JObj kvs) = kvs"
| "entries (JArr xs) = zip (map show_nat [0..<length xs]) xs"
| "entries _ = []"

text \<open>Truthiness (\<^verbatim>\<open>!v\<close>, \<^verbatim>\<open>v || d\<close>) and strict equality (\<^verbatim>\<open>===\<close>).\<close>

fun truthy :: "json option \<Rightarrow> bool" where
  "truthy None = False"
| "truthy (Some JNull) = False"
| "truthy (Some (JBool b)) = b"
| "truthy (Some (JNum n)) = (n \<noteq> 0)"
| "truthy (Some (JStr s)) = (s \<noteq> [])"
| "truthy (Some (JArr xs)) = True"
| "truthy (Some (JObj kvs)) = True"

text \<open>
  Two arrays or two objects are \<^verbatim>\<open>===\<close> only when they are the same reference; the
  values compared here come from different parsed documents (a stored record and a
  request), so they never are.
\<close>

fun strict_eq :: "json option \<Rightarrow> json option \<Rightarrow> bool" where
  "strict_eq None b = (b = None)"
| "strict_eq (Some JNull) b = (b = Some JNull)"
| "strict_eq (Some (JBool x)) b = (b = Some (JBool x))"
| "strict_eq (Some (JNum x)) b = (b = Some (JNum x))"
| "strict_eq (Some (JStr x)) b = (b = Some (JStr x))"
| "strict_eq (Some (JArr xs)) b = False"
| "strict_eq (Some (JObj kvs)) b = False"

text \<open>\<^verbatim>\<open>String(v)\<close>, the conversion a template string applies.\<close>

fun ToString :: "json \<Rightarrow> string" where
  "ToString JNull = ''null''"
| "ToString (JBool b) = (if b then ''true'' else ''false'')"
| "ToString (JNum i) = show_int i"
| "ToString (JStr s) = s"
| "ToString (JArr xs) = join '','' (map (\<lambda>x. if x = JNull then [] else ToString x) xs)"
| "ToString (JObj kvs) = ''[object Object]''"

subsection \<open>\<^verbatim>\<open>JSON.stringify(value, null, 2)\<close>\<close>

definition quote_char :: "char \<Rightarrow> string" where
  "quote_char c =
     (if c = CHR 0x08 then [CHR 0x5C, CHR ''b'']
      else if c = CHR 0x09 then [CHR 0x5C, CHR ''t'']
      else if c = CHR 0x0A then [CHR 0x5C, CHR ''n'']
      else if c = CHR 0x0C then [CHR 0x5C, CHR ''f'']
      else if c = CHR 0x0D then [CHR 0x5C, CHR ''r'']
      else if c = CHR 0x22 then [CHR 0x5C, CHR 0x22]
      else if c = CHR 0x5C then [CHR 0x5C, CHR 0x5C]
      else if (of_char c :: nat) < 32
        then [CHR 0x5C, CHR ''u'', CHR ''0'', CHR ''0'',
              digit_char ((of_char c :: nat) div 16), digit_char ((of_char c :: nat) mod 16)]
      else [c])"

definition QuoteJSONString :: "string \<Rightarrow> string" where
  "QuoteJSONString s = [CHR 0x22] @ concat (map quote_char s) @ [CHR 0x22]"

text \<open>
  The serializer at indentation \<open>n\<close> with a gap of two spaces: an empty array or object
  is written closed, otherwise each element stands on its own line, indented by \<open>n + 2\<close>.
\<close>

fun SerializeJSONProperty :: "nat \<Rightarrow> json \<Rightarrow> string" where
  "SerializeJSONProperty n JNull = ''null''"
| "SerializeJSONProperty n (JBool b) = (if b then ''true'' else ''false'')"
| "SerializeJSONProperty n (JNum i) = show_int i"
| "SerializeJSONProperty n (JStr s) = QuoteJSONString s"
| "SerializeJSONProperty n (JArr xs) =
     (if xs = [] then ''[]''
      else ''['' @ newline @ replicate (n + 2) CHR '' ''
        @ join ('','' @ newline @ replicate (n + 2) CHR '' '')
            (map (SerializeJSONProperty (n + 2)) xs)
        @ newline @ replicate n CHR '' '' @ '']'')"
| "SerializeJSONProperty n (JObj kvs) =
     (if kvs = [] then ''{}''
      else ''{'' @ newline @ replicate (n + 2) CHR '' ''
        @ join ('','' @ newline @ replicate (n + 2) CHR '' '')
            (map (\<lambda>kv. QuoteJSONString (fst kv) @ '': ''
                    @ SerializeJSONProperty (n + 2) (snd kv)) kvs)
        @ newline @ replicate n CHR '' '' @ ''}'')"

definition JSON_stringify :: "obj list \<Rightarrow> string" where
  "JSON_stringify records = SerializeJSONProperty 0 (JArr (map JObj records))"

section \<open>The schema module\<close>

text \<open>
  \<^verbatim>\<open>schema.js\<close> exports one validator, \<^verbatim>\<open>validateGame\<close>, which runs the strict zod
  object schema \<^verbatim>\<open>GameSchema\<close> and returns \<^verbatim>\<open>{valid: true}\<close> or
  \<^verbatim>\<open>{valid: false, errors}\<close> with one \<^verbatim>\<open>{field, message}\<close> per zod issue. Which
  values the schema accepts is read off its declaration: no key outside the declared
  ones, \<^verbatim>\<open>id\<close> an optional number, \<^verbatim>\<open>createdAt\<close> and \<^verbatim>\<open>updatedAt\<close> optional strings,
  the \<^verbatim>\<open>z.string()\<close> and \<^verbatim>\<open>z.number()\<close> fields required, the two \<^verbatim>\<open>z.array(z.string())\<close>
  fields required arrays of strings, the two \<^verbatim>\<open>z.any()\<close> fields unconstrained. The
  wording of zod's issues belongs to the library; it is the parameter \<open>issues\<close>.
\<close>

type_synonym issue = "string \<times> string"

datatype validation = Valid | Invalid "issue list"

definition GameSchema_keys :: "string list" where
  "GameSchema_keys =
     [''id'', ''createdAt'', ''updatedAt'', ''title'', ''slug'', ''category'', ''releaseYear'',
      ''developer'', ''rating'', ''description'', ''price'', ''systemRequirements'',
      ''imagesExtra'', ''tags'', ''links'']"

fun z_string :: "json option \<Rightarrow> bool" where
  "z_string (Some (JStr s)) = True"
| "z_string _ = False"

fun z_number :: "json option \<Rightarrow> bool" where
  "z_number (Some (JNum n)) = True"
| "z_number _ = False"

fun z_array_of_string :: "json option \<Rightarrow> bool" where
  "z_array_of_string (Some (JArr xs)) = list_all (\<lambda>x. z_string (Some x)) xs"
| "z_array_of_string _ = False"

definition z_optional :: "(json option \<Rightarrow> bool) \<Rightarrow> json option \<Rightarrow> bool" where
  "z_optional p v = (v = None \<or> p v)"

fun GameSchema :: "json \<Rightarrow> bool" where
  "GameSchema (JObj kvs) =
     (list_all (\<lambda>k. k \<in> set GameSchema_keys) (map fst kvs)
      \<and> z_optional z_number (get_prop kvs ''id'')
      \<and> z_optional z_string (get_prop kvs ''createdAt'')
      \<and> z_optional z_string (get_prop kvs ''updatedAt'')
      \<and> z_string (get_prop kvs ''title'')
      \<and> z_string (get_prop kvs ''slug'')
      \<and> z_string (get_prop kvs ''category'')
      \<and> z_number (get_prop kvs ''releaseYear'')
      \<and> z_string (get_prop kvs ''developer'')
      \<and> z_string (get_prop kvs ''rating'')
      \<and> z_string (get_prop kvs ''description'')
      \<and> z_string (get_prop kvs ''price'')
      \<and> z_array_of_string (get_prop kvs ''imagesExtra'')
      \<and> z_array_of_string (get_prop kvs ''tags''))"
| "GameSchema _ = False"

definition validateGame :: "(json \<Rightarrow> issue list) \<Rightarrow> json \<Rightarrow> validation" where
  "validateGame issues data = (if GameSchema data then Valid else Invalid (issues data))"

definition validators :: "(json \<Rightarrow> issue list) \<Rightarrow> (string \<times> (json \<Rightarrow> validation)) list" where
  "validators issues = [(''game'', validateGame issues)]"

definition readonlyProperties :: "(string \<times> string list) list" where
  "readonlyProperties = [(''game'', [])]"

definition resourceTypes :: "string list" where
  "resourceTypes = [''game'']"

text \<open>\<^verbatim>\<open>readonlyProperties[type] || []\<close>\<close>

definition typeReadonlyProps :: "string \<Rightarrow> string list" where
  "typeReadonlyProps t = (case map_of readonlyProperties t of Some ps \<Rightarrow> ps | None \<Rightarrow> [])"

section \<open>Process state\<close>

text \<open>
  The module-level state is \<^verbatim>\<open>cache\<close> and \<^verbatim>\<open>writeQueues\<close>. Around it the state holds what
  the run-time keeps for the program: the \<^verbatim>\<open>fs.writeFile\<close> calls that have been issued
  and have not settled, the callbacks handed to \<^verbatim>\<open>setImmediate\<close>, the files on disk,
  the responses sent so far (by request), which \<^verbatim>\<open>loadData\<close> promises have been started
  and have resolved, and the message of \<^verbatim>\<open>process.exit(1)\<close> once startup was abandoned.

  A persistence task is the closure \<^verbatim>\<open>saveData\<close> pushes: it knows its type and the
  \<^verbatim>\<open>resolve\<close> of the promise its caller awaits. The caller is a request handler, suspended
  at \<^verbatim>\<open>await saveData(type)\<close> with its response still to send, or \<^verbatim>\<open>loadData\<close>.
  A type that was never registered has no cache entry in the source and no route or load
  that could read one; here it has the empty array.
\<close>

datatype response = Response (status: nat) (payload: json)

datatype waiter =
    PostHandler nat string obj
  | PutHandler nat string nat
  | DeleteHandler nat
  | Loader string

datatype task = Task (task_type: string) (task_resolve: waiter)

datatype pending_write =
  Write (write_type: string) (write_data: string) (write_resolve: waiter)

record state =
  cache :: "string \<Rightarrow> obj list"
  writeQueues :: "string \<Rightarrow> task list"
  in_flight :: "pending_write list"
  immediates :: "string list"
  files :: "string \<Rightarrow> string option"
  sent :: "(nat \<times> response) list"
  load_started :: "string list"
  loaded :: "string list"
  exited :: "string option"

definition init_state :: "(string \<Rightarrow> string option) \<Rightarrow> state" where
  "init_state disk =
     \<lparr>cache = (\<lambda>t. []), writeQueues = (\<lambda>t. []), in_flight = [], immediates = [],
      files = disk, sent = [], load_started = [], loaded = [], exited = None\<rparr>"

section \<open>The write queue\<close>

text \<open>
  A task, called, computes \<^verbatim>\<open>JSON.stringify(cache[type], null, 2)\<close> from the cache as it
  is at that moment, hands it to \<^verbatim>\<open>fs.writeFile\<close> and suspends until the write settles.
\<close>

definition run_task :: "task \<Rightarrow> state \<Rightarrow> state" where
  "run_task k s =
     s\<lparr>in_flight := in_flight s
          @ [Write (task_type k) (JSON_stringify (cache s (task_type k))) (task_resolve k)]\<rparr>"

text \<open>
  \<^verbatim>\<open>processWriteQueue\<close> up to its \<^verbatim>\<open>await task()\<close>: nothing on an empty queue, otherwise
  the head is shifted off and called. After the await it hands itself to
  \<^verbatim>\<open>setImmediate\<close> if the queue is not empty.
\<close>

definition processWriteQueue :: "string \<Rightarrow> state \<Rightarrow> state" where
  "processWriteQueue t s =
     (case writeQueues s t of
        [] \<Rightarrow> s
      | k # rest \<Rightarrow> run_task k (s\<lparr>writeQueues := (writeQueues s)(t := rest)\<rparr>))"

definition processWriteQueue_resume :: "string \<Rightarrow> state \<Rightarrow> state" where
  "processWriteQueue_resume t s =
     (if length (writeQueues s t) > 0 then s\<lparr>immediates := immediates s @ [t]\<rparr> else s)"

text \<open>
  \<^verbatim>\<open>saveData\<close>: push the task; if the queue then holds exactly one task, call
  \<^verbatim>\<open>processWriteQueue\<close>. The caller stays suspended until the task calls \<^verbatim>\<open>resolve\<close>.
\<close>

definition saveData :: "string \<Rightarrow> waiter \<Rightarrow> state \<Rightarrow> state" where
  "saveData t w s =
     (let s1 = s\<lparr>writeQueues := (writeQueues s)(t := writeQueues s t @ [Task t w])\<rparr>
      in if length (writeQueues s1 t) = 1 then processWriteQueue t s1 else s1)"

section \<open>Request handlers\<close>

text \<open>
  Each handler is the code of the route up to its \<^verbatim>\<open>await saveData(type)\<close>: either it
  returns early with a response, or it changes the cache and suspends on \<^verbatim>\<open>saveData\<close>.
  The rest of the handler, the response after the await, is \<open>resume\<close> below. \<open>rid\<close> names
  the request, \<open>now\<close> is \<^verbatim>\<open>new Date().toISOString()\<close>.
\<close>

definition reply :: "nat \<Rightarrow> response \<Rightarrow> state \<Rightarrow> state" where
  "reply rid r s = s\<lparr>sent := sent s @ [(rid, r)]\<rparr>"

definition errors_json :: "issue list \<Rightarrow> json" where
  "errors_json errors =
     JArr (map (\<lambda>e. JObj [(''field'', JStr (fst e)), (''message'', JStr (snd e))]) errors)"

definition a_grave :: string where
  "a_grave = [CHR 0xC3, CHR 0xA0]"

definition slug_required :: response where
  "slug_required = Response 400 (JObj [(''error'', JStr ''Slug obbligatorio'')])"

definition slug_exists :: response where
  "slug_exists = Response 409 (JObj [(''error'', JStr (''Slug gi'' @ a_grave @ '' esistente''))])"

definition invalid_create :: "string \<Rightarrow> issue list \<Rightarrow> response" where
  "invalid_create t errors =
     Response 400 (JObj [(''error'', JStr (''Invalid '' @ t @ '' data'')),
                         (''details'', errors_json errors)])"

definition invalid_update :: "string \<Rightarrow> issue list \<Rightarrow> response" where
  "invalid_update t errors =
     Response 400 (JObj [(''error'', JStr (''Dati '' @ t @ '' non validi'')),
                         (''details'', errors_json errors)])"

definition post_handler ::
  "(json \<Rightarrow> validation) \<Rightarrow> nat \<Rightarrow> string \<Rightarrow> json \<Rightarrow> string \<Rightarrow> state \<Rightarrow> state" where
  "post_handler validator rid t body now s =
     (case validator body of
        Invalid errors \<Rightarrow> reply rid (invalid_create t errors) s
      | Valid \<Rightarrow>
          (case body of
             JObj kvs \<Rightarrow>
               (let newItem = js_delete ''id'' kvs in
                if \<not> truthy (get_prop newItem ''slug'') then reply rid slug_required s
                else if list_ex (\<lambda>item. strict_eq (get_prop item ''slug'')
                                          (get_prop newItem ''slug'')) (cache s t)
                  then reply rid slug_exists s
                else
                  (let created = js_assign ''updatedAt'' (JStr now)
                                   (js_assign ''createdAt'' (JStr now) newItem)
                   in saveData t (PostHandler rid t created)
                        (s\<lparr>cache := (cache s)(t := cache s t @ [created])\<rparr>)))
           | _ \<Rightarrow> reply rid slug_required s))"

text \<open>\<^verbatim>\<open>Array.prototype.findIndex\<close>; \<open>None\<close> is its \<open>-1\<close>.\<close>

fun findIndex :: "('a \<Rightarrow> bool) \<Rightarrow> 'a list \<Rightarrow> nat option" where
  "findIndex p [] = None"
| "findIndex p (x # xs) = (if p x then Some 0 else map_option Suc (findIndex p xs))"

text \<open>
  The fields an update applies: the copy \<^verbatim>\<open>{ ...req.body }\<close>, built by assigning the
  entries of the body to an empty object, without \<^verbatim>\<open>slug\<close>, \<^verbatim>\<open>id\<close>, \<^verbatim>\<open>createdAt\<close> and
  \<^verbatim>\<open>updatedAt\<close>.
\<close>

definition updatedFields_of :: "json \<Rightarrow> obj" where
  "updatedFields_of body =
     js_delete ''updatedAt'' (js_delete ''createdAt'' (js_delete ''id'' (js_delete ''slug''
       (js_spread [] (entries body)))))"

definition not_found_slug :: "string \<Rightarrow> string \<Rightarrow> response" where
  "not_found_slug t itemSlug =
     Response 404 (JObj [(''success'', JBool False),
       (''message'', JStr (t @ '' con slug '' @ [CHR 0x27] @ itemSlug @ [CHR 0x27]
                            @ '' non trovato.''))])"

definition readonly_violation :: "string list \<Rightarrow> response" where
  "readonly_violation keys =
     Response 400 (JObj [(''success'', JBool False),
       (''error'', JStr (''Non puoi modificare propriet'' @ a_grave @ '' readonly: ''
                          @ join '', '' keys))])"

text \<open>
  \<^verbatim>\<open>fieldsToValidate\<close>: an empty object to which the loop over \<^verbatim>\<open>Object.keys(updatedFields)\<close>
  assigns \<^verbatim>\<open>fieldsToValidate[key] = updatedFields[key]\<close>.
\<close>

definition fieldsToValidate_of :: "obj \<Rightarrow> obj" where
  "fieldsToValidate_of updatedFields =
     fold (\<lambda>kv acc. js_set (fst kv) (snd kv) acc) updatedFields []"

definition put_handler ::
  "(json \<Rightarrow> validation) \<Rightarrow> string list \<Rightarrow> nat \<Rightarrow> string \<Rightarrow> string \<Rightarrow> json \<Rightarrow> string
    \<Rightarrow> state \<Rightarrow> state" where
  "put_handler validator readonlyProps rid t itemSlug body now s =
     (case findIndex (\<lambda>p. strict_eq (get_prop p ''slug'') (Some (JStr itemSlug))) (cache s t) of
        None \<Rightarrow> reply rid (not_found_slug t itemSlug) s
      | Some itemIndex \<Rightarrow>
          (let oldItem = cache s t ! itemIndex;
               updatedFields = updatedFields_of body;
               readonlyAttemptsToUpdate =
                 filter (\<lambda>key. key \<in> set readonlyProps) (map fst updatedFields)
           in if length readonlyAttemptsToUpdate > 0
                then reply rid (readonly_violation readonlyAttemptsToUpdate) s
              else
                (let fieldsToValidate = fieldsToValidate_of updatedFields in
                 case (if length (map fst fieldsToValidate) > 0
                       then validator (JObj (js_spread oldItem fieldsToValidate))
                       else Valid) of
                   Invalid errors \<Rightarrow> reply rid (invalid_update t errors) s
                 | Valid \<Rightarrow>
                     saveData t (PutHandler rid t itemIndex)
                       (s\<lparr>cache := (cache s)(t := (cache s t)[itemIndex :=
                            js_assign ''updatedAt'' (JStr now)
                              (js_spread (cache s t ! itemIndex) updatedFields)])\<rparr>))))"

text \<open>
  \<^verbatim>\<open>DELETE\<close> takes \<^verbatim>\<open>parseInt(req.params.id)\<close>, a number or \<^verbatim>\<open>NaN\<close> (\<open>None\<close>), and keeps the
  records with \<^verbatim>\<open>p.id !== itemId\<close>; \<^verbatim>\<open>NaN\<close> differs from every value.
\<close>

definition id_differs :: "json option \<Rightarrow> int option \<Rightarrow> bool" where
  "id_differs v itemId =
     (case itemId of None \<Rightarrow> True | Some n \<Rightarrow> \<not> strict_eq v (Some (JNum n)))"

definition not_found_id :: "string \<Rightarrow> int option \<Rightarrow> response" where
  "not_found_id t itemId =
     Response 404 (JObj [(''success'', JBool False),
       (''message'', JStr (t @ '' with id '' @ [CHR 0x27]
          @ (case itemId of None \<Rightarrow> ''NaN'' | Some n \<Rightarrow> show_int n) @ [CHR 0x27]
          @ '' not found.''))])"

definition delete_handler :: "nat \<Rightarrow> string \<Rightarrow> int option \<Rightarrow> state \<Rightarrow> state" where
  "delete_handler rid t itemId s =
     (let filteredItems = filter (\<lambda>p. id_differs (get_prop p ''id'') itemId) (cache s t)
      in if length filteredItems = length (cache s t) then reply rid (not_found_id t itemId) s
         else saveData t (DeleteHandler rid) (s\<lparr>cache := (cache s)(t := filteredItems)\<rparr>))"

text \<open>
  What runs when a task calls \<^verbatim>\<open>resolve()\<close>: the suspended handler sends its response
  (\<^verbatim>\<open>PUT\<close> reads \<^verbatim>\<open>cache[type][itemIndex]\<close> at that moment; an absent element is a
  property \<^verbatim>\<open>res.json\<close> leaves out), \<^verbatim>\<open>loadData\<close> returns.
\<close>

fun resume :: "waiter \<Rightarrow> state \<Rightarrow> state" where
  "resume (PostHandler rid t newItem) s =
     reply rid (Response 201 (JObj (js_assign t (JObj newItem) [(''success'', JBool True)]))) s"
| "resume (PutHandler rid t itemIndex) s =
     reply rid (Response 200 (JObj
       (if itemIndex < length (cache s t)
        then js_assign t (JObj (cache s t ! itemIndex)) [(''success'', JBool True)]
        else [(''success'', JBool True)]))) s"
| "resume (DeleteHandler rid) s = reply rid (Response 200 (JObj [(''success'', JBool True)])) s"
| "resume (Loader t) s = s\<lparr>loaded := loaded s @ [t]\<rparr>"

section \<open>Loading at startup\<close>

text \<open>
  \<^verbatim>\<open>formatValidationErrors\<close> groups the messages by field in an object, in the order the
  fields first occur, and prints one line per field; the empty field (an issue at the
  root) prints as \<^verbatim>\<open>Generale\<close>. The fields are the dotted paths of zod issues under
  \<^verbatim>\<open>GameSchema\<close> (a schema key, possibly with an array index), for which an object keeps
  insertion order.
\<close>

definition fieldErrors_of :: "issue list \<Rightarrow> (string \<times> string list) list" where
  "fieldErrors_of errors =
     fold (\<lambda>error acc.
             case map_of acc (fst error) of
               None \<Rightarrow> acc @ [(fst error, [snd error])]
             | Some messages \<Rightarrow> AList.update (fst error) (messages @ [snd error]) acc)
          errors []"

definition bullet :: string where
  "bullet = [CHR 0xE2, CHR 0x80, CHR 0xA2]"

definition formatValidationErrors :: "issue list \<Rightarrow> string" where
  "formatValidationErrors errors =
     concat (map (\<lambda>fm. newline @ ''   '' @ bullet @ '' ''
                          @ (if fst fm = [] then ''Generale'' else fst fm) @ '': ''
                          @ join '', '' (snd fm))
                 (fieldErrors_of errors))"

text \<open>
  The validation loop of \<^verbatim>\<open>loadData\<close>. An invalid item is recorded with its index, its
  \<^verbatim>\<open>item.id || "sconosciuto"\<close> and its errors. Reading \<^verbatim>\<open>item.id\<close> of \<^verbatim>\<open>null\<close> throws a
  \<^verbatim>\<open>TypeError\<close>, which ends the loop (\<open>Inl\<close> carries the message of what was thrown).
\<close>

type_synonym invalid_item = "nat \<times> json \<times> issue list"

definition TypeError_null_id :: string where
  "TypeError_null_id =
     ''Cannot read properties of null (reading '' @ [CHR 0x27] @ ''id'' @ [CHR 0x27] @ '')''"

definition id_or_unknown :: "json \<Rightarrow> json" where
  "id_or_unknown item =
     (let v = (case item of JObj kvs \<Rightarrow> get_prop kvs ''id'' | _ \<Rightarrow> None)
      in case v of Some x \<Rightarrow> (if truthy v then x else JStr ''sconosciuto'')
                 | None \<Rightarrow> JStr ''sconosciuto'')"

fun invalidItems_of ::
  "(json \<Rightarrow> validation) \<Rightarrow> nat \<Rightarrow> json list \<Rightarrow> string + invalid_item list" where
  "invalidItems_of validator i [] = Inr []"
| "invalidItems_of validator i (item # rest) =
     (case validator item of
        Valid \<Rightarrow> invalidItems_of validator (Suc i) rest
      | Invalid errors \<Rightarrow>
          (if item = JNull then Inl TypeError_null_id
           else case invalidItems_of validator (Suc i) rest of
                  Inl thrown \<Rightarrow> Inl thrown
                | Inr others \<Rightarrow> Inr ((i, id_or_unknown item, errors) # others)))"

definition stop_sign :: string where
  "stop_sign = [CHR 0xE2, CHR 0x9B, CHR 0x94]"

definition no_entry_sign :: string where
  "no_entry_sign = [CHR 0xF0, CHR 0x9F, CHR 0x9A, CHR 0xAB]"

definition o_grave :: string where
  "o_grave = [CHR 0xC3, CHR 0xB2]"

definition item_report :: "invalid_item \<Rightarrow> string" where
  "item_report item =
     newline @ no_entry_sign @ '' Elemento #'' @ show_nat (fst item + 1)
       @ '' (ID: '' @ ToString (fst (snd item)) @ '') non valido:''
       @ formatValidationErrors (snd (snd item)) @ newline"

definition validation_report :: "string \<Rightarrow> invalid_item list \<Rightarrow> string" where
  "validation_report t invalidItems =
     newline @ stop_sign @ '' Errori di validazione nel file '' @ t
       @ ''.json. Il server non pu'' @ o_grave @ '' partire.'' @ newline
       @ concat (map item_report invalidItems)
       @ newline @ ''Correggi questi errori nel file database/'' @ t
       @ ''.json per avviare il server.''"

definition structure_error :: "string \<Rightarrow> string" where
  "structure_error t =
     ''Errore di struttura nel file '' @ t @ ''.json: il file deve contenere un array.''"

definition syntax_error :: "string \<Rightarrow> string \<Rightarrow> string" where
  "syntax_error t message =
     ''Errore di sintassi JSON nel file '' @ t @ ''.json:'' @ newline @ message @ newline
       @ ''Controlla la sintassi del file e assicurati che sia un JSON valido.''"

text \<open>
  The body of the inner \<^verbatim>\<open>try\<close> after \<^verbatim>\<open>JSON.parse\<close>: \<open>Inl\<close> is the message of the error
  thrown there, \<open>Inr\<close> the array that becomes \<^verbatim>\<open>cache[type]\<close>.
\<close>

definition check_loaded :: "(json \<Rightarrow> issue list) \<Rightarrow> string \<Rightarrow> json \<Rightarrow> string + json list" where
  "check_loaded issues t loadedData =
     (case loadedData of
        JArr items \<Rightarrow>
          (case map_of (validators issues) t of
             None \<Rightarrow> Inl ''validator is not a function''
           | Some validator \<Rightarrow>
               (case invalidItems_of validator 0 items of
                  Inl thrown \<Rightarrow> Inl thrown
                | Inr invalidItems \<Rightarrow>
                    if length invalidItems > 0 then Inl (validation_report t invalidItems)
                    else Inr items))
      | _ \<Rightarrow> Inl (structure_error t))"

text \<open>
  What \<^verbatim>\<open>loadData\<close> finds on disk, as \<^verbatim>\<open>existsSync\<close>, \<^verbatim>\<open>fs.readFile\<close>, \<^verbatim>\<open>data.trim()\<close> and
  \<^verbatim>\<open>JSON.parse\<close> report it: no file, a failed read, blank content, content that
  \<^verbatim>\<open>JSON.parse\<close> rejects with a message, or the parsed value. Creating the \<^verbatim>\<open>database\<close>
  directory when it is missing changes nothing of what follows and is left out.
\<close>

datatype file_read = NoFile | ReadError string | Blank | SyntaxError string | Parsed json

text \<open>
  The records that become the cache. Every item \<^verbatim>\<open>validateGame\<close> accepts is an object
  (lemma \<open>check_loaded_objects\<close> below), so nothing is lost here.
\<close>

fun objects_of :: "json list \<Rightarrow> obj list" where
  "objects_of [] = []"
| "objects_of (JObj kvs # rest) = kvs # objects_of rest"
| "objects_of (_ # rest) = objects_of rest"

text \<open>
  \<^verbatim>\<open>loadData\<close>: \<open>Inl\<close> is the message of the error its promise rejects with. Every error
  of the inner \<^verbatim>\<open>try\<close> is caught and rethrown as a JSON syntax error around the original
  message. With no file, the collection is empty and \<^verbatim>\<open>saveData\<close> writes it out.
\<close>

definition loadData :: "(json \<Rightarrow> issue list) \<Rightarrow> string \<Rightarrow> file_read \<Rightarrow> state \<Rightarrow> string + state" where
  "loadData issues t found s =
     (case found of
        NoFile \<Rightarrow> Inr (saveData t (Loader t) (s\<lparr>cache := (cache s)(t := [])\<rparr>))
      | ReadError message \<Rightarrow> Inl message
      | Blank \<Rightarrow> Inr (resume (Loader t) (s\<lparr>cache := (cache s)(t := [])\<rparr>))
      | SyntaxError message \<Rightarrow> Inl (syntax_error t message)
      | Parsed loadedData \<Rightarrow>
          (case check_loaded issues t loadedData of
             Inl message \<Rightarrow> Inl (syntax_error t message)
           | Inr items \<Rightarrow>
               Inr (resume (Loader t) (s\<lparr>cache := (cache s)(t := objects_of items)\<rparr>))))"

section \<open>The event loop\<close>

text \<open>
  JavaScript runs one callback at a time, to completion. The events are the callbacks of
  this program: a \<^verbatim>\<open>loadData\<close> call of the startup, a request reaching its route, an
  \<^verbatim>\<open>fs.writeFile\<close> settling, and a \<^verbatim>\<open>setImmediate\<close> callback. Each \<^verbatim>\<open>fs.writeFile\<close> call is
  an operation of its own that the run-time carries out in the background: of the
  pending writes any one may settle next, fulfilled or rejected, whatever the order in
  which they were issued. \<^verbatim>\<open>Promise.all\<close> starts \<^verbatim>\<open>app.listen\<close> once every load has resolved
  and exits the process on the first that rejects.
\<close>

datatype event =
    Load string file_read
  | Post nat string json string
  | Put nat string string json string
  | Delete nat string "int option"
  | WriteSettled nat bool
  | RunImmediate

definition listening :: "state \<Rightarrow> bool" where
  "listening s = (exited s = None \<and> list_all (\<lambda>t. t \<in> set (loaded s)) resourceTypes)"

text \<open>
  A settled write leaves the task's \<^verbatim>\<open>try\<close> (a fulfilled one has replaced the file's
  content, a rejected one is logged and is taken to leave the file as it was); the task
  calls \<^verbatim>\<open>resolve()\<close> and returns, and \<^verbatim>\<open>processWriteQueue\<close> continues after its await.
\<close>

definition writeFile_settled :: "nat \<Rightarrow> bool \<Rightarrow> state \<Rightarrow> state" where
  "writeFile_settled i fulfilled s =
     (let w = in_flight s ! i;
          s1 = s\<lparr>in_flight := take i (in_flight s) @ drop (Suc i) (in_flight s),
                  files := (if fulfilled then (files s)(write_type w := Some (write_data w))
                            else files s)\<rparr>
      in processWriteQueue_resume (write_type w) (resume (write_resolve w) s1))"

definition exec :: "(json \<Rightarrow> issue list) \<Rightarrow> event \<Rightarrow> state \<Rightarrow> state option" where
  "exec issues ev s =
     (if exited s \<noteq> None then None
      else case ev of
        Load t found \<Rightarrow>
          if t \<in> set resourceTypes \<and> t \<notin> set (load_started s)
             \<and> (found = NoFile) = (files s t = None)
          then (case loadData issues t found (s\<lparr>load_started := load_started s @ [t]\<rparr>) of
                  Inl message \<Rightarrow> Some (s\<lparr>exited := Some message\<rparr>)
                | Inr s' \<Rightarrow> Some s')
          else None
      | Post rid t body now \<Rightarrow>
          (case map_of (validators issues) t of
             Some validator \<Rightarrow>
               if listening s then Some (post_handler validator rid t body now s) else None
           | None \<Rightarrow> None)
      | Put rid t itemSlug body now \<Rightarrow>
          (case map_of (validators issues) t of
             Some validator \<Rightarrow>
               if listening s
               then Some (put_handler validator (typeReadonlyProps t) rid t itemSlug body now s)
               else None
           | None \<Rightarrow> None)
      | Delete rid t itemId \<Rightarrow>
          if listening s \<and> t \<in> set resourceTypes then Some (delete_handler rid t itemId s)
          else None
      | WriteSettled i fulfilled \<Rightarrow>
          if i < length (in_flight s) then Some (writeFile_settled i fulfilled s) else None
      | RunImmediate \<Rightarrow>
          (case immediates s of
             [] \<Rightarrow> None
           | t # rest \<Rightarrow> Some (processWriteQueue t (s\<lparr>immediates := rest\<rparr>))))"

fun run :: "(json \<Rightarrow> issue list) \<Rightarrow> event list \<Rightarrow> state \<Rightarrow> state option" where
  "run issues [] s = Some s"
| "run issues (ev # evs) s =
     (case exec issues ev s of None \<Rightarrow> None | Some s' \<Rightarrow> run issues evs s')"

section \<open>Vocabulary of the properties\<close>



text \<open>
  A request is rejected when the handler answers at once with 400, 404 or 409 and does
  nothing else. It awaits a write when its persistence task is in the queue or its
  \<^verbatim>\<open>fs.writeFile\<close> is pending.
\<close>

definition rejected :: "nat \<Rightarrow> state \<Rightarrow> state \<Rightarrow> bool" where
  "rejected rid s s' = (\<exists>r. s' = reply rid r s \<and> status r \<in> {400, 404, 409})"


text \<open>The slugs of a collection are unique when no two of its records have the same one.\<close>

definition slugs_unique :: "obj list \<Rightarrow> bool" where
  "slugs_unique records = distinct (map (\<lambda>r. get_prop r ''slug'') records)"

text \<open>
  The record a \<^verbatim>\<open>POST\<close> stores for the body \<open>kvs\<close>, and the record a \<^verbatim>\<open>PUT\<close> stores in
  place of \<open>oldItem\<close>.
\<close>

definition created_of :: "obj \<Rightarrow> string \<Rightarrow> obj" where
  "created_of kvs now =
     js_assign ''updatedAt'' (JStr now) (js_assign ''createdAt'' (JStr now) (js_delete ''id'' kvs))"

definition stored_of :: "obj \<Rightarrow> json \<Rightarrow> string \<Rightarrow> obj" where
  "stored_of oldItem body now =
     js_assign ''updatedAt'' (JStr now) (js_spread oldItem (updatedFields_of body))"

text \<open>
  A record without an \<^verbatim>\<open>id\<close>, and an event that brings no record from disk: every event
  but a load of a file that holds records.
\<close>

fun finds_no_records :: "event \<Rightarrow> bool" where
  "finds_no_records (Load t (Parsed loadedData)) = (loadedData = JArr [])"
| "finds_no_records _ = True"

definition no_id :: "obj \<Rightarrow> bool" where
  "no_id r = (get_prop r ''id'' = None)"

text \<open>
  The write queues of a state are idle: no task is queued and no \<^verbatim>\<open>setImmediate\<close>
  callback is pending.
\<close>

definition idle :: "state \<Rightarrow> bool" where
  "idle s = ((\<forall>t. writeQueues s t = []) \<and> immediates s = [])"

subsection \<open>Sample data\<close>

text \<open>
  A record that \<^verbatim>\<open>GameSchema\<close> accepts, a request body for it that carries an \<^verbatim>\<open>id\<close>, a
  validator whose issue lists are empty, a disk whose \<^verbatim>\<open>game.json\<close> holds \<^verbatim>\<open>[]\<close> or given
  records, the startup on the former, and the record a create at \<open>now\<close> makes of the
  sample.
\<close>

definition sample_game :: "string \<Rightarrow> obj" where
  "sample_game slug =
     [(''title'', JStr ''Half-Life 2''), (''slug'', JStr slug), (''category'', JStr ''fps''),
      (''releaseYear'', JNum 2004), (''developer'', JStr ''Valve''), (''rating'', JStr ''M''),
      (''description'', JStr ''shooter''), (''price'', JStr ''9.99''),
      (''imagesExtra'', JArr []), (''tags'', JArr [JStr ''classic''])]"

definition sample_body :: "string \<Rightarrow> json" where
  "sample_body slug = JObj ((''id'', JNum 7) # sample_game slug)"

definition no_issues :: "json \<Rightarrow> issue list" where
  "no_issues data = []"

definition empty_disk :: "string \<Rightarrow> string option" where
  "empty_disk t = Some ''[]''"

definition disk_holding :: "obj list \<Rightarrow> string \<Rightarrow> string option" where
  "disk_holding records t = Some (JSON_stringify records)"

definition startup :: "event list" where
  "startup = [Load ''game'' (Parsed (JArr []))]"

definition created :: "string \<Rightarrow> string \<Rightarrow> obj" where
  "created slug now = sample_game slug @ [(''createdAt'', JStr now), (''updatedAt'', JStr now)]"

text \<open>The process after that startup, with one \<^verbatim>\<open>POST /games\<close> handled up to its await.\<close>

definition serving :: state where
  "serving = (init_state empty_disk)\<lparr>load_started := [''game''], loaded := [''game'']\<rparr>"


text \<open>The serving process with one record in the collection.\<close>

definition stocked :: state where
  "stocked = serving\<lparr>cache := (cache serving)(''game'' := [created ''a'' ''t1''])\<rparr>"


text \<open>That process once a persistence task has run and its write has been fulfilled.\<close>

definition flushed :: state where
  "flushed = writeFile_settled (length (in_flight stocked)) True
               (run_task (Task ''game'' (DeleteHandler 1)) stocked)"

section \<open>Objects\<close>

lemma get_prop_js_delete:
  "get_prop (js_delete k ob) k' = (if k' = k then None else get_prop ob k')"
  by (simp add: get_prop_def js_delete_def delete_conv)

lemma get_prop_js_assign:
  "get_prop (js_assign k v ob) k' = (if k' = k then Some v else get_prop ob k')"
  by (simp add: get_prop_def js_assign_def update_conv)

lemma keys_js_assign: "set (map fst (js_assign k v ob)) = insert k (set (map fst ob))"
  by (auto simp: js_assign_def update_keys)

lemma distinct_js_assign: "distinct (map fst ob) \<Longrightarrow> distinct (map fst (js_assign k v ob))"
  by (simp add: js_assign_def distinct_update)

lemma distinct_js_delete: "distinct (map fst ob) \<Longrightarrow> distinct (map fst (js_delete k ob))"
  by (simp add: js_delete_def distinct_delete)

lemma js_spread_Cons: "js_spread a (kv # b) = js_spread (js_assign (fst kv) (snd kv) a) b"
  by (simp add: js_spread_def)

lemma js_spread_Nil [simp]: "js_spread a [] = a"
  by (simp add: js_spread_def)

lemma distinct_js_spread: "distinct (map fst a) \<Longrightarrow> distinct (map fst (js_spread a b))"
  by (induction b arbitrary: a) (simp_all add: js_spread_Cons distinct_js_assign)

text \<open>Spreading \<open>b\<close> over \<open>a\<close>: the entries of \<open>b\<close> win.\<close>

lemma map_of_js_spread:
  "distinct (map fst b) \<Longrightarrow>
   map_of (js_spread a b) x = (case map_of b x of Some v \<Rightarrow> Some v | None \<Rightarrow> map_of a x)"
proof (induction b arbitrary: a)
  case Nil
  then show ?case by simp
next
  case (Cons kv b)
  obtain k v where kv: "kv = (k, v)" by (cases kv)
  have fresh: "map_of b k = None"
    using Cons.prems kv by (simp add: map_of_eq_None_iff)
  have "map_of (js_spread a (kv # b)) x =
          (case map_of b x of Some w \<Rightarrow> Some w | None \<Rightarrow> map_of (js_assign k v a) x)"
    using Cons.IH [of "js_assign k v a"] Cons.prems kv
    by (simp add: js_spread_Cons)
  then show ?case
    using fresh kv by (simp add: js_assign_def update_conv split: option.splits)
qed

lemma get_prop_js_spread:
  "distinct (map fst b) \<Longrightarrow>
   get_prop (js_spread a b) k = (case get_prop b k of Some v \<Rightarrow> Some v | None \<Rightarrow> get_prop a k)"
  unfolding get_prop_def by (rule map_of_js_spread)

lemma js_assign_fresh: "k \<notin> fst ` set a \<Longrightarrow> js_assign k v a = a @ [(k, v)]"
  by (induction a) (auto simp: js_assign_def)

lemma js_spread_append: "distinct (map fst (a @ b)) \<Longrightarrow> js_spread a b = a @ b"
proof (induction b arbitrary: a)
  case Nil
  then show ?case by simp
next
  case (Cons kv b)
  have "js_assign (fst kv) (snd kv) a = a @ [kv]"
    using Cons.prems by (simp add: js_assign_fresh)
  moreover have "distinct (map fst ((a @ [kv]) @ b))"
    using Cons.prems by simp
  ultimately show ?case
    using Cons.IH [of "a @ [kv]"] by (simp add: js_spread_Cons)
qed

text \<open>The copy \<^verbatim>\<open>{...ob}\<close> of an object is the object.\<close>

lemma js_spread_copy: "distinct (map fst ob) \<Longrightarrow> js_spread [] ob = ob"
  using js_spread_append [of "[]" ob] by simp

section \<open>The write queue and the handlers, step by step\<close>

lemma run_task_fields [simp]:
  "cache (run_task k s) = cache s" "sent (run_task k s) = sent s"
  "files (run_task k s) = files s" "writeQueues (run_task k s) = writeQueues s"
  "immediates (run_task k s) = immediates s" "loaded (run_task k s) = loaded s"
  "exited (run_task k s) = exited s" "load_started (run_task k s) = load_started s"
  "in_flight (run_task k s) =
     in_flight s @ [Write (task_type k) (JSON_stringify (cache s (task_type k))) (task_resolve k)]"
  by (simp_all add: run_task_def)

lemma processWriteQueue_fields [simp]:
  "cache (processWriteQueue t s) = cache s" "sent (processWriteQueue t s) = sent s"
  "files (processWriteQueue t s) = files s" "immediates (processWriteQueue t s) = immediates s"
  "loaded (processWriteQueue t s) = loaded s" "exited (processWriteQueue t s) = exited s"
  "load_started (processWriteQueue t s) = load_started s"
  by (simp_all add: processWriteQueue_def split: list.splits)

lemma saveData_fields [simp]:
  "cache (saveData t w s) = cache s" "sent (saveData t w s) = sent s"
  "files (saveData t w s) = files s" "immediates (saveData t w s) = immediates s"
  "loaded (saveData t w s) = loaded s" "exited (saveData t w s) = exited s"
  "load_started (saveData t w s) = load_started s"
  by (simp_all add: saveData_def Let_def)

lemma saveData_idle:
  "writeQueues s t = [] \<Longrightarrow>
   saveData t w s = s\<lparr>in_flight := in_flight s @ [Write t (JSON_stringify (cache s t)) w]\<rparr>"
  by (simp add: saveData_def processWriteQueue_def run_task_def fun_upd_idem)



lemma reply_fields [simp]:
  "cache (reply rid r s) = cache s" "sent (reply rid r s) = sent s @ [(rid, r)]"
  "files (reply rid r s) = files s" "writeQueues (reply rid r s) = writeQueues s"
  "in_flight (reply rid r s) = in_flight s" "immediates (reply rid r s) = immediates s"
  "loaded (reply rid r s) = loaded s" "exited (reply rid r s) = exited s"
  by (simp_all add: reply_def)

lemma status_responses [simp]:
  "status slug_required = 400" "status slug_exists = 409"
  "status (invalid_create t errors) = 400" "status (invalid_update t errors) = 400"
  "status (not_found_slug t itemSlug) = 404" "status (readonly_violation keys) = 400"
  "status (not_found_id t itemId) = 404"
  by (simp_all add: slug_required_def slug_exists_def invalid_create_def invalid_update_def
      not_found_slug_def readonly_violation_def not_found_id_def)

lemma post_handler_cases:
  "rejected rid s (post_handler validator rid t body now s)
   \<or> (\<exists>created. post_handler validator rid t body now s =
         saveData t (PostHandler rid t created) (s\<lparr>cache := (cache s)(t := cache s t @ [created])\<rparr>))"
  by (auto simp: post_handler_def rejected_def Let_def split: validation.splits json.splits)

lemma put_handler_cases:
  "rejected rid s (put_handler validator ro rid t itemSlug body now s)
   \<or> (\<exists>i stored. put_handler validator ro rid t itemSlug body now s =
         saveData t (PutHandler rid t i) (s\<lparr>cache := (cache s)(t := (cache s t)[i := stored])\<rparr>))"
  by (auto simp: put_handler_def rejected_def Let_def split: validation.splits option.splits)

lemma delete_handler_cases:
  "rejected rid s (delete_handler rid t itemId s)
   \<or> (\<exists>kept. delete_handler rid t itemId s =
         saveData t (DeleteHandler rid) (s\<lparr>cache := (cache s)(t := kept)\<rparr>))"
  by (auto simp: delete_handler_def rejected_def Let_def)

lemma processWriteQueue_resume_fields [simp]:
  "cache (processWriteQueue_resume t s) = cache s" "sent (processWriteQueue_resume t s) = sent s"
  "files (processWriteQueue_resume t s) = files s"
  "in_flight (processWriteQueue_resume t s) = in_flight s"
  "writeQueues (processWriteQueue_resume t s) = writeQueues s"
  "loaded (processWriteQueue_resume t s) = loaded s" "exited (processWriteQueue_resume t s) = exited s"
  by (simp_all add: processWriteQueue_resume_def)







section \<open>Accepted requests\<close>

lemma rejected_reply [simp]:
  "status r = 400 \<or> status r = 404 \<or> status r = 409 \<Longrightarrow> rejected rid s (reply rid r s)"
  by (auto simp: rejected_def)

lemma not_rejected_saveData [simp]: "\<not> rejected rid s (saveData t w (s\<lparr>cache := c\<rparr>))"
proof
  assume "rejected rid s (saveData t w (s\<lparr>cache := c\<rparr>))"
  then obtain r where "saveData t w (s\<lparr>cache := c\<rparr>) = reply rid r s"
    by (auto simp: rejected_def)
  then have "sent (saveData t w (s\<lparr>cache := c\<rparr>)) = sent (reply rid r s)" by simp
  then show False by simp
qed

lemma findIndex_Some: "findIndex p xs = Some i \<Longrightarrow> i < length xs \<and> p (xs ! i)"
proof (induction xs arbitrary: i)
  case Nil
  then show ?case by simp
next
  case (Cons x xs)
  then show ?case by (auto split: if_splits)
qed

lemma findIndex_None: "findIndex p xs = None \<longleftrightarrow> \<not> list_ex p xs"
  by (induction xs) auto

lemma distinct_updatedFields: "distinct (map fst (updatedFields_of body))"
  by (simp add: updatedFields_of_def distinct_js_delete distinct_js_spread)

lemma get_prop_updatedFields:
  "get_prop (updatedFields_of body) k =
     (if k \<in> {''slug'', ''id'', ''createdAt'', ''updatedAt''} then None
      else get_prop (js_spread [] (entries body)) k)"
  by (auto simp: updatedFields_of_def get_prop_js_delete)

text \<open>
  \<^verbatim>\<open>fieldsToValidate\<close> holds the fields of the update, but for a field \<^verbatim>\<open>__proto__\<close>: the
  assignment of that key defines nothing.
\<close>

lemma js_set_fold:
  assumes "distinct (map fst (a @ b))" and "get_prop a ''__proto__'' = None"
  shows "fold (\<lambda>kv acc. js_set (fst kv) (snd kv) acc) b a
           = a @ filter (\<lambda>kv. fst kv \<noteq> ''__proto__'') b"
  using assms
proof (induction b arbitrary: a)
  case Nil
  then show ?case by simp
next
  case (Cons kv b)
  show ?case
  proof (cases "fst kv = ''__proto__''")
    case True
    then have "js_set (fst kv) (snd kv) a = a"
      using Cons.prems(2) by (simp add: js_set_def)
    moreover have "distinct (map fst (a @ b))"
      using Cons.prems(1) by simp
    ultimately show ?thesis
      using Cons.IH [of a] Cons.prems(2) True by simp
  next
    case False
    have step: "js_set (fst kv) (snd kv) a = a @ [kv]"
      using Cons.prems(1) False by (simp add: js_set_def js_assign_fresh)
    have "distinct (map fst ((a @ [kv]) @ b))"
      using Cons.prems(1) by simp
    moreover have "get_prop (a @ [kv]) ''__proto__'' = None"
      using Cons.prems(2) False by (cases kv) (simp add: get_prop_def map_add_def)
    ultimately show ?thesis
      using Cons.IH [of "a @ [kv]"] False by (simp add: step)
  qed
qed

lemma fieldsToValidate_updatedFields:
  "fieldsToValidate_of (updatedFields_of body) = js_delete ''__proto__'' (updatedFields_of body)"
proof -
  have "filter (\<lambda>kv. fst kv \<noteq> ''__proto__'') fields = js_delete ''__proto__'' fields" for fields
    by (induction fields) (auto simp: js_delete_def)
  then show ?thesis
    using js_set_fold [of "[]" "updatedFields_of body"] distinct_updatedFields [of body]
    by (simp add: fieldsToValidate_of_def get_prop_def)
qed

lemma fieldsToValidate_copy:
  "get_prop (updatedFields_of body) ''__proto__'' = None \<Longrightarrow>
   fieldsToValidate_of (updatedFields_of body) = updatedFields_of body"
  by (simp add: fieldsToValidate_updatedFields js_delete_def get_prop_def map_of_eq_None_iff)

lemma post_handler_accepted:
  assumes "\<not> rejected rid s (post_handler validator rid t body now s)"
  shows "\<exists>kvs. body = JObj kvs \<and> validator body = Valid
           \<and> truthy (get_prop kvs ''slug'')
           \<and> \<not> list_ex (\<lambda>item. strict_eq (get_prop item ''slug'') (get_prop kvs ''slug'')) (cache s t)
           \<and> post_handler validator rid t body now s =
               saveData t (PostHandler rid t (created_of kvs now))
                 (s\<lparr>cache := (cache s)(t := cache s t @ [created_of kvs now])\<rparr>)"
  using assms
  by (auto simp: post_handler_def Let_def created_of_def get_prop_js_delete
      split: validation.splits json.splits if_splits)

lemma put_handler_accepted:
  assumes "\<not> rejected rid s (put_handler validator ro rid t itemSlug body now s)"
  shows "\<exists>i. findIndex (\<lambda>p. strict_eq (get_prop p ''slug'') (Some (JStr itemSlug))) (cache s t) = Some i
           \<and> \<not> list_ex (\<lambda>k. k \<in> set ro) (map fst (updatedFields_of body))
           \<and> put_handler validator ro rid t itemSlug body now s =
               saveData t (PutHandler rid t i)
                 (s\<lparr>cache := (cache s)(t := (cache s t)[i := stored_of (cache s t ! i) body now])\<rparr>)"
  using assms
  by (auto simp: put_handler_def Let_def stored_of_def list_ex_iff filter_empty_conv
      split: validation.splits option.splits if_splits)

lemma validateGame_object: "validateGame issues data = Valid \<Longrightarrow> \<exists>kvs. data = JObj kvs"
  by (cases data) (simp_all add: validateGame_def)

lemma z_string_iff: "z_string v \<longleftrightarrow> (\<exists>x. v = Some (JStr x))"
  by (cases v rule: z_string.cases) simp_all

lemma validateGame_slug:
  "validateGame issues (JObj kvs) = Valid \<Longrightarrow> \<exists>slug. get_prop kvs ''slug'' = Some (JStr slug)"
  by (simp add: validateGame_def z_string_iff split: if_splits)

lemma get_prop_created_of:
  "get_prop (created_of kvs now) k =
     (if k = ''updatedAt'' \<or> k = ''createdAt'' then Some (JStr now)
      else if k = ''id'' then None else get_prop kvs k)"
  by (simp add: created_of_def get_prop_js_assign get_prop_js_delete)

lemma strict_eq_string: "strict_eq v (Some (JStr x)) \<longleftrightarrow> v = Some (JStr x)"
  by (cases v; cases "the v") auto

lemma serving_fields:
  "cache serving = (\<lambda>t. [])" "writeQueues serving = (\<lambda>t. [])" "in_flight serving = []"
  "sent serving = []" "exited serving = None" "loaded serving = [''game'']"
  by (simp_all add: serving_def init_state_def)

lemma GameSchema_sample: "GameSchema (JObj ((''id'', JNum n) # sample_game slug))"
  by (simp add: sample_game_def GameSchema_keys_def get_prop_def z_optional_def)

lemma post_sample:
  "post_handler (validateGame no_issues) 1 ''game'' (sample_body ''a'') ''t1'' serving =
     saveData ''game'' (PostHandler 1 ''game'' (created ''a'' ''t1''))
       (serving\<lparr>cache := (cache serving)(''game'' := cache serving ''game'' @ [created ''a'' ''t1''])\<rparr>)"
  using GameSchema_sample [of 7 "''a''"]
  by (simp add: post_handler_def validateGame_def sample_body_def Let_def serving_fields
      get_prop_def js_delete_def js_assign_def sample_game_def created_def)

text \<open>
  What an event does to the cache: a rejected request nothing, an accepted create appends
  the new record, an accepted update replaces the record found by the slug, an accepted
  delete removes the records with the id (at least one), a settled write nothing.
\<close>

lemma resume_cache: "cache (resume w s) = cache s"
  by (cases w) simp_all

lemma writeFile_settled_cache: "cache (writeFile_settled i ok s) = cache s"
  by (simp add: writeFile_settled_def Let_def resume_cache)



section \<open>The write serializer\<close>

text \<open>
  \<^verbatim>\<open>saveData\<close> on an idle queue starts the write at once, whatever is pending: the task is
  pushed, the queue has length one, \<^verbatim>\<open>processWriteQueue\<close> shifts it off again and calls
  it. So the queue is empty again when \<^verbatim>\<open>saveData\<close> returns, and the next call finds it
  so.
\<close>

lemma saveData_leaves_queue_idle:
  "writeQueues s t = [] \<Longrightarrow> writeQueues (saveData t w s) = writeQueues s"
  by (simp add: saveData_idle)

text \<open>
  Claim C1 (at most one file write in flight per resource type: a second task for a type
  never executes while a first one is executing). Two \<^verbatim>\<open>POST /games\<close> requests arrive one
  after the other, the second before the first request's \<^verbatim>\<open>fs.writeFile\<close> has settled.
  Each \<^verbatim>\<open>saveData\<close> finds the queue empty (the first task was shifted off before it was
  awaited) and starts its own drain loop: two writes of \<^verbatim>\<open>game.json\<close> are pending at
  once, the queue is empty and no \<^verbatim>\<open>setImmediate\<close> callback is scheduled. (The queue
  is empty in every state the process reaches, lemma \<open>queue_is_always_empty\<close> below:
  no task ever waits for a running drain loop.)
\<close>

theorem two_writes_in_flight_for_one_type:
  "map_option (\<lambda>s. (map write_type (in_flight s), writeQueues s ''game'', immediates s))
     (run no_issues
        (startup @ [Post 1 ''game'' (JObj (sample_game ''a'')) ''t1'',
                    Post 2 ''game'' (JObj (sample_game ''b'')) ''t2''])
        (init_state empty_disk))
   = Some ([''game'', ''game''], [], [])"
  by code_simp

text \<open>
  Claim C2 (tasks run in enqueue order and, once all have completed, the file holds the
  effects of the last one enqueued, never an earlier snapshot written over a later one).
  After the same two requests the second write settles first and the first one last.
  Nothing is pending or queued any more, the cache holds both records, and the file holds
  the first task's snapshot, the array with the first record only.
\<close>

theorem stale_snapshot_is_final_content:
  "map_option (\<lambda>s. (in_flight s, writeQueues s ''game'', cache s ''game'',
                    files s ''game'' = Some (JSON_stringify [created ''a'' ''t1'']),
                    files s ''game'' = Some (JSON_stringify (cache s ''game''))))
     (run no_issues
        (startup @ [Post 1 ''game'' (JObj (sample_game ''a'')) ''t1'',
                    Post 2 ''game'' (JObj (sample_game ''b'')) ''t2'',
                    WriteSettled 1 True, WriteSettled 0 True])
        (init_state empty_disk))
   = Some ([], [], [created ''a'' ''t1'', created ''b'' ''t2''], True, False)"
  by code_simp

section \<open>Responses and flushes\<close>








section \<open>Creating records\<close>

text \<open>
  Claim C4, as the specification states it (the stored and returned record of a valid
  create carries a server-assigned numeric identifier, and its id identifies it), fails:
  a valid \<^verbatim>\<open>POST /games\<close> whose body carries \<^verbatim>\<open>id: 7\<close> is accepted, and the record stored and
  returned with the 201 has no \<^verbatim>\<open>id\<close> at all.
\<close>

theorem created_record_has_no_id:
  "map_option (\<lambda>s. (map (\<lambda>r. get_prop r ''id'') (cache s ''game''),
                    map (\<lambda>r. z_number (get_prop r ''id'')) (cache s ''game''),
                    sent s))
     (run no_issues (startup @ [Post 1 ''game'' (sample_body ''a'') ''t1'', WriteSettled 0 True])
        (init_state empty_disk))
   = Some ([None], [False],
           [(1, Response 201 (JObj [(''success'', JBool True),
                                    (''game'', JObj (created ''a'' ''t1''))]))])"
  by code_simp

text \<open>
  Claim C4, amended. The handler deletes the \<^verbatim>\<open>id\<close> of the body and assigns none. For every
  accepted create the record appended to the collection, which is the record returned
  with the 201, has no \<^verbatim>\<open>id\<close>; its slug is a non-empty string that no other record of
  the collection has, so the slug identifies it within its type; \<^verbatim>\<open>createdAt\<close> and
  \<^verbatim>\<open>updatedAt\<close> are the time of the request.
\<close>

theorem create_stores_record_without_id:
  assumes "\<not> rejected rid s (post_handler (validateGame issues) rid t body now s)"
  shows "\<exists>record slug.
           post_handler (validateGame issues) rid t body now s =
             saveData t (PostHandler rid t record)
               (s\<lparr>cache := (cache s)(t := cache s t @ [record])\<rparr>)
         \<and> cache (post_handler (validateGame issues) rid t body now s) t = cache s t @ [record]
         \<and> resume (PostHandler rid t record) s2 =
             reply rid (Response 201 (JObj (js_assign t (JObj record) [(''success'', JBool True)]))) s2
         \<and> get_prop record ''id'' = None
         \<and> get_prop record ''slug'' = Some (JStr slug) \<and> slug \<noteq> []
         \<and> list_all (\<lambda>r. get_prop r ''slug'' \<noteq> Some (JStr slug)) (cache s t)
         \<and> get_prop record ''createdAt'' = Some (JStr now)
         \<and> get_prop record ''updatedAt'' = Some (JStr now)"
proof -
  from post_handler_accepted [OF assms] obtain kvs where
    body: "body = JObj kvs" and valid: "validateGame issues body = Valid"
    and truthy: "truthy (get_prop kvs ''slug'')"
    and fresh: "\<not> list_ex (\<lambda>item. strict_eq (get_prop item ''slug'') (get_prop kvs ''slug'')) (cache s t)"
    and eq: "post_handler (validateGame issues) rid t body now s =
               saveData t (PostHandler rid t (created_of kvs now))
                 (s\<lparr>cache := (cache s)(t := cache s t @ [created_of kvs now])\<rparr>)"
    by blast
  from validateGame_slug valid body obtain slug where slug: "get_prop kvs ''slug'' = Some (JStr slug)"
    by blast
  have nonempty: "slug \<noteq> []" using truthy slug by simp
  have unique: "list_all (\<lambda>r. get_prop r ''slug'' \<noteq> Some (JStr slug)) (cache s t)"
    using fresh slug by (simp add: list_ex_iff list_all_iff strict_eq_string)
  show ?thesis
    apply (rule exI [of _ "created_of kvs now"])
    apply (rule exI [of _ slug])
    using eq slug nonempty unique by (simp add: get_prop_created_of)
qed

text \<open>Claim C4, witness: the accepted create of the sample body, sent with \<^verbatim>\<open>id: 7\<close>.\<close>

theorem create_stores_record_without_id_witness:
  "\<not> rejected 1 serving (post_handler (validateGame no_issues) 1 ''game'' (sample_body ''a'') ''t1'' serving)
   \<and> (\<exists>record slug.
         cache (post_handler (validateGame no_issues) 1 ''game'' (sample_body ''a'') ''t1'' serving) ''game''
           = cache serving ''game'' @ [record]
       \<and> get_prop record ''id'' = None
       \<and> get_prop record ''slug'' = Some (JStr slug) \<and> slug \<noteq> [])"
proof -
  have h: "\<not> rejected 1 serving
             (post_handler (validateGame no_issues) 1 ''game'' (sample_body ''a'') ''t1'' serving)"
    unfolding post_sample by (rule not_rejected_saveData)
  from create_stores_record_without_id [OF h] h show ?thesis by blast
qed

section \<open>Records without an identifier\<close>

declare resume_cache [simp] writeFile_settled_cache [simp]

lemma no_id_created_of: "no_id (created_of kvs now)"
  by (simp add: no_id_def get_prop_created_of)

lemma get_prop_stored_of:
  "get_prop (stored_of oldItem body now) k =
     (if k = ''updatedAt'' then Some (JStr now)
      else case get_prop (updatedFields_of body) k of
             Some v \<Rightarrow> Some v | None \<Rightarrow> get_prop oldItem k)"
  by (simp add: stored_of_def get_prop_js_assign get_prop_js_spread distinct_updatedFields)

lemma no_id_stored_of: "no_id oldItem \<Longrightarrow> no_id (stored_of oldItem body now)"
  by (simp add: no_id_def get_prop_stored_of get_prop_updatedFields)

lemma list_all_update: "list_all P xs \<Longrightarrow> P y \<Longrightarrow> list_all P (xs[i := y])"
  using set_update_subset_insert [of xs i y] by (auto simp: list_all_iff)

lemma post_handler_no_id:
  assumes "list_all no_id (cache s t')"
  shows "list_all no_id (cache (post_handler validator rid t body now s) t')"
proof (cases "rejected rid s (post_handler validator rid t body now s)")
  case True
  then show ?thesis using assms by (auto simp: rejected_def)
next
  case False
  from post_handler_accepted [OF this] show ?thesis
    using assms by (auto simp: no_id_created_of)
qed

lemma put_handler_no_id:
  assumes "list_all no_id (cache s t')"
  shows "list_all no_id (cache (put_handler validator ro rid t itemSlug body now s) t')"
proof (cases "rejected rid s (put_handler validator ro rid t itemSlug body now s)")
  case True
  then show ?thesis using assms by (auto simp: rejected_def)
next
  case False
  from put_handler_accepted [OF this] obtain i where
    i: "findIndex (\<lambda>p. strict_eq (get_prop p ''slug'') (Some (JStr itemSlug))) (cache s t) = Some i"
    and eq: "put_handler validator ro rid t itemSlug body now s =
               saveData t (PutHandler rid t i)
                 (s\<lparr>cache := (cache s)(t := (cache s t)[i := stored_of (cache s t ! i) body now])\<rparr>)"
    by blast
  have "i < length (cache s t)" using findIndex_Some [OF i] by simp
  then have old: "t' = t \<Longrightarrow> no_id (cache s t ! i)"
    using assms by (simp add: list_all_length)
  show ?thesis
  proof (cases "t' = t")
    case True
    then show ?thesis
      using assms old unfolding eq by (simp add: list_all_update no_id_stored_of)
  next
    case False
    then show ?thesis using assms unfolding eq by simp
  qed
qed

lemma delete_handler_no_id:
  assumes "list_all no_id (cache s t')"
  shows "list_all no_id (cache (delete_handler rid t itemId s) t')"
  using assms by (auto simp: delete_handler_def Let_def list_all_iff)

lemma delete_handler_not_found:
  assumes "list_all no_id (cache s t)"
  shows "delete_handler rid t itemId s = reply rid (not_found_id t itemId) s"
proof -
  have "filter (\<lambda>p. id_differs (get_prop p ''id'') itemId) (cache s t) = cache s t"
    using assms by (auto simp: list_all_iff no_id_def id_differs_def split: option.splits)
  then show ?thesis by (simp add: delete_handler_def)
qed

lemma loadData_no_records:
  assumes "loadData issues t found s = Inr s'" and "finds_no_records (Load t found)"
  shows "cache s' = (cache s)(t := [])"
  using assms
  by (cases found)
     (auto simp: loadData_def check_loaded_def validators_def split: sum.splits if_splits option.splits)

lemma exec_no_id:
  assumes "exec issues ev s = Some s'" and "finds_no_records ev"
    and "\<forall>t. list_all no_id (cache s t)"
  shows "\<forall>t. list_all no_id (cache s' t)"
proof (cases ev)
  case (Load t found)
  then show ?thesis
    using assms
    by (auto simp: exec_def split: if_splits sum.splits dest!: loadData_no_records)
next
  case (Post rid t body now)
  then show ?thesis
    using assms by (auto simp: exec_def post_handler_no_id split: if_splits option.splits)
next
  case (Put rid t itemSlug body now)
  then show ?thesis
    using assms by (auto simp: exec_def put_handler_no_id split: if_splits option.splits)
next
  case (Delete rid t itemId)
  then show ?thesis
    using assms by (auto simp: exec_def delete_handler_no_id split: if_splits)
next
  case (WriteSettled i ok)
  then show ?thesis
    using assms by (auto simp: exec_def split: if_splits)
next
  case RunImmediate
  then show ?thesis
    using assms by (auto simp: exec_def split: if_splits list.splits)
qed

lemma run_no_id:
  assumes "run issues evs s = Some s'" and "list_all finds_no_records evs"
    and "\<forall>t. list_all no_id (cache s t)"
  shows "\<forall>t. list_all no_id (cache s' t)"
  using assms
proof (induction evs arbitrary: s)
  case Nil
  then show ?case by simp
next
  case (Cons ev evs)
  from Cons.prems(1) obtain s1 where s1: "exec issues ev s = Some s1" and r: "run issues evs s1 = Some s'"
    by (auto split: option.splits)
  have "\<forall>t. list_all no_id (cache s1 t)"
    using exec_no_id [OF s1] Cons.prems by simp
  then show ?case using Cons.IH [OF r] Cons.prems by simp
qed

text \<open>
  Claim C10. \<^verbatim>\<open>POST\<close> deletes the \<^verbatim>\<open>id\<close> of the body and assigns none, and \<^verbatim>\<open>PUT\<close> drops the
  \<^verbatim>\<open>id\<close> of its body. So in a process whose startup found no records on disk, whatever
  requests it has served since, no record of any collection has an \<^verbatim>\<open>id\<close>: a record a
  further \<^verbatim>\<open>POST\<close> appends has none, and \<^verbatim>\<open>DELETE\<close> with any id (a number or \<^verbatim>\<open>NaN\<close>)
  removes nothing and answers 404.
\<close>

theorem created_records_have_no_id_so_delete_finds_none:
  assumes "run issues evs (init_state disk) = Some s" and "list_all finds_no_records evs"
  shows "list_all no_id (cache s t)
       \<and> delete_handler rid t itemId s = reply rid (not_found_id t itemId) s
       \<and> status (not_found_id t itemId) = 404
       \<and> (\<forall>record. cache (post_handler validator rid t body now s) t = cache s t @ [record]
             \<longrightarrow> no_id record)"
proof -
  have inv: "\<forall>t. list_all no_id (cache s t)"
    using run_no_id [OF assms] by (simp add: init_state_def)
  have "list_all no_id (cache (post_handler validator rid t body now s) t)"
    using inv by (simp add: post_handler_no_id)
  then show ?thesis
    using inv by (auto simp: delete_handler_not_found)
qed

text \<open>
  Claim C10, witness: after a startup on an empty file and one accepted create of a body
  that carried \<^verbatim>\<open>id: 7\<close>, \<^verbatim>\<open>DELETE /games/7\<close> is a 404.
\<close>

theorem created_records_have_no_id_so_delete_finds_none_witness:
  "list_all finds_no_records
     (startup @ [Post 1 ''game'' (sample_body ''a'') ''t1'', WriteSettled 0 True])
   \<and> (\<exists>s. run no_issues
              (startup @ [Post 1 ''game'' (sample_body ''a'') ''t1'', WriteSettled 0 True])
              (init_state empty_disk) = Some s
          \<and> cache s ''game'' = [created ''a'' ''t1'']
          \<and> list_all no_id (cache s ''game'')
          \<and> delete_handler 2 ''game'' (Some 7) s = reply 2 (not_found_id ''game'' (Some 7)) s)"
proof -
  let ?evs = "startup @ [Post 1 ''game'' (sample_body ''a'') ''t1'', WriteSettled 0 True]"
  have "\<not> Option.is_none (run no_issues ?evs (init_state empty_disk))"
    by code_simp
  then obtain s where r: "run no_issues ?evs (init_state empty_disk) = Some s"
    by (auto simp: Option.is_none_def)
  have c: "map_option (\<lambda>s. cache s ''game'') (run no_issues ?evs (init_state empty_disk))
             = Some [created ''a'' ''t1'']"
    by code_simp
  have f: "list_all finds_no_records ?evs"
    by (simp add: startup_def)
  from created_records_have_no_id_so_delete_finds_none
         [OF r f, where t = "''game''" and rid = 2 and itemId = "Some 7"] r c f
  show ?thesis
    by auto
qed

section \<open>Updating records\<close>

text \<open>
  An update whose slug names a stored record is refused with 400, and changes nothing,
  when one of its fields is declared read-only for the type, and when the record the
  handler validates, the stored record with \<^verbatim>\<open>fieldsToValidate\<close> spread over it, fails the
  validator. The handler validates only when \<^verbatim>\<open>fieldsToValidate\<close> has a key.
\<close>

lemma update_rejections:
  assumes "findIndex (\<lambda>p. strict_eq (get_prop p ''slug'') (Some (JStr itemSlug))) (cache s t) = Some i"
  shows "(list_ex (\<lambda>key. key \<in> set readonlyProps) (map fst (updatedFields_of body)) \<longrightarrow>
            put_handler validator readonlyProps rid t itemSlug body now s
              = reply rid (readonly_violation
                  (filter (\<lambda>key. key \<in> set readonlyProps) (map fst (updatedFields_of body)))) s)
       \<and> (\<not> list_ex (\<lambda>key. key \<in> set readonlyProps) (map fst (updatedFields_of body))
          \<and> fieldsToValidate_of (updatedFields_of body) \<noteq> []
          \<and> validator (JObj (js_spread (cache s t ! i)
                  (fieldsToValidate_of (updatedFields_of body)))) = Invalid errors \<longrightarrow>
            put_handler validator readonlyProps rid t itemSlug body now s
              = reply rid (invalid_update t errors) s)"
  using assms by (auto simp: put_handler_def Let_def list_ex_iff filter_empty_conv)

lemma stocked_game: "cache stocked ''game'' = [created ''a'' ''t1'']"
  by (simp add: stocked_def)

lemma find_a:
  "findIndex (\<lambda>p. strict_eq (get_prop p ''slug'') (Some (JStr ''a''))) (cache stocked ''game'') = Some 0"
  by (simp add: stocked_game created_def sample_game_def get_prop_def)

text \<open>
  Claim C5 (an update that touches a read-only field, or whose merged record fails
  schema validation, is refused with 400 and leaves the stored record unchanged). The
  merged record is the stored record with the partial fields over it, the record the
  handler stores. The record it validates is built from \<^verbatim>\<open>fieldsToValidate\<close>, which the
  handler fills by assignment, and the assignment of the key \<^verbatim>\<open>__proto__\<close> defines no
  property. A \<^verbatim>\<open>PUT /games/a\<close> with the body \<^verbatim>\<open>{"__proto__": {}}\<close> finds \<^verbatim>\<open>fieldsToValidate\<close>
  without a key and is not validated at all: the answer is 200, and the stored record
  is replaced by the merged record, which has the key \<^verbatim>\<open>__proto__\<close> and fails the
  schema.
\<close>

theorem proto_update_is_stored_unvalidated:
  "map_option
     (\<lambda>s. (map (\<lambda>x. (fst x, status (snd x))) (sent s),
           map (\<lambda>r. get_prop r ''__proto__'') (cache s ''game''),
           map (\<lambda>r. GameSchema (JObj r)) (cache s ''game''),
           GameSchema (JObj (js_spread (created ''a'' ''t1'')
                               (updatedFields_of (JObj [(''__proto__'', JObj [])]))))))
     (run no_issues
        (startup @ [Post 1 ''game'' (sample_body ''a'') ''t1'', WriteSettled 0 True,
                    Put 2 ''game'' ''a'' (JObj [(''__proto__'', JObj [])]) ''t2'',
                    WriteSettled 0 True])
        (init_state empty_disk))
   = Some ([(1, 201), (2, 200)], [Some (JObj [])], [False], False)"
  by code_simp

text \<open>
  Claim C6. An accepted update replaces the record found by the slug, and nothing else in
  the cache: the other records of the collection and the other collections are as they
  were. The stored record, which the 200 returns, has \<^verbatim>\<open>updatedAt\<close> set to the time of the
  request and the \<^verbatim>\<open>slug\<close>, \<^verbatim>\<open>id\<close> and \<^verbatim>\<open>createdAt\<close> of the old record, whatever the body
  said; every other field has the value the body gives it, or its old value if the body
  does not name it.
\<close>

theorem update_merges_partial_fields:
  assumes "\<not> rejected rid s (put_handler validator readonlyProps rid t itemSlug body now s)"
  shows "\<exists>i stored.
           findIndex (\<lambda>p. strict_eq (get_prop p ''slug'') (Some (JStr itemSlug))) (cache s t) = Some i
         \<and> i < length (cache s t)
         \<and> put_handler validator readonlyProps rid t itemSlug body now s =
             saveData t (PutHandler rid t i)
               (s\<lparr>cache := (cache s)(t := (cache s t)[i := stored])\<rparr>)
         \<and> cache (put_handler validator readonlyProps rid t itemSlug body now s) t
             = (cache s t)[i := stored]
         \<and> (\<forall>j. j \<noteq> i \<longrightarrow>
               cache (put_handler validator readonlyProps rid t itemSlug body now s) t ! j
                 = cache s t ! j)
         \<and> (\<forall>t'. t' \<noteq> t \<longrightarrow>
               cache (put_handler validator readonlyProps rid t itemSlug body now s) t' = cache s t')
         \<and> resume (PutHandler rid t i) (put_handler validator readonlyProps rid t itemSlug body now s)
             = reply rid (Response 200 (JObj (js_assign t (JObj stored) [(''success'', JBool True)])))
                 (put_handler validator readonlyProps rid t itemSlug body now s)
         \<and> get_prop stored ''updatedAt'' = Some (JStr now)
         \<and> get_prop stored ''slug'' = Some (JStr itemSlug)
         \<and> get_prop stored ''slug'' = get_prop (cache s t ! i) ''slug''
         \<and> get_prop stored ''id'' = get_prop (cache s t ! i) ''id''
         \<and> get_prop stored ''createdAt'' = get_prop (cache s t ! i) ''createdAt''
         \<and> (\<forall>k. k \<notin> {''slug'', ''id'', ''createdAt'', ''updatedAt''} \<longrightarrow>
               get_prop stored k =
                 (case get_prop (js_spread [] (entries body)) k of
                    Some v \<Rightarrow> Some v | None \<Rightarrow> get_prop (cache s t ! i) k))
         \<and> (\<forall>kvs. body = JObj kvs \<and> distinct (map fst kvs) \<longrightarrow> js_spread [] (entries body) = kvs)"
proof -
  let ?s' = "put_handler validator readonlyProps rid t itemSlug body now s"
  from put_handler_accepted [OF assms] obtain i where
    i: "findIndex (\<lambda>p. strict_eq (get_prop p ''slug'') (Some (JStr itemSlug))) (cache s t) = Some i"
    and eq: "?s' = saveData t (PutHandler rid t i)
                 (s\<lparr>cache := (cache s)(t := (cache s t)[i := stored_of (cache s t ! i) body now])\<rparr>)"
    by blast
  let ?stored = "stored_of (cache s t ! i) body now"
  have len: "i < length (cache s t)"
    and slug: "get_prop (cache s t ! i) ''slug'' = Some (JStr itemSlug)"
    using findIndex_Some [OF i] by (simp_all add: strict_eq_string)
  have c: "cache ?s' = (cache s)(t := (cache s t)[i := ?stored])"
    unfolding eq by simp
  have r: "resume (PutHandler rid t i) ?s'
             = reply rid (Response 200 (JObj (js_assign t (JObj ?stored) [(''success'', JBool True)]))) ?s'"
    using len by (simp add: c)
  have copy: "\<forall>kvs. body = JObj kvs \<and> distinct (map fst kvs) \<longrightarrow> js_spread [] (entries body) = kvs"
    by (auto simp: js_spread_copy)
  show ?thesis
    apply (rule exI [of _ i])
    apply (rule exI [of _ ?stored])
    using i len eq r slug copy
    by (simp add: c get_prop_stored_of get_prop_updatedFields)
qed

lemma created_slug: "get_prop (created slug now) ''slug'' = Some (JStr slug)"
  by (simp add: created_def sample_game_def get_prop_def)

lemma valid_title:
  "validateGame no_issues (JObj (js_spread (created ''a'' ''t1'') [(''title'', JStr ''Portal'')])) = Valid"
  by code_simp

lemma put_sample:
  "put_handler (validateGame no_issues) [] 2 ''game'' ''a''
     (JObj [(''title'', JStr ''Portal''), (''id'', JNum 9)]) ''t2'' stocked =
   saveData ''game'' (PutHandler 2 ''game'' 0)
     (stocked\<lparr>cache := (cache stocked)(''game'' :=
        (cache stocked ''game'')[0 := stored_of (cache stocked ''game'' ! 0)
           (JObj [(''title'', JStr ''Portal''), (''id'', JNum 9)]) ''t2''])\<rparr>)"
proof -
  have f: "updatedFields_of (JObj [(''title'', JStr ''Portal''), (''id'', JNum 9)]) = [(''title'', JStr ''Portal'')]"
    by (simp add: updatedFields_of_def js_spread_def js_assign_def js_delete_def)
  have fv: "fieldsToValidate_of [(''title'', JStr ''Portal'')] = [(''title'', JStr ''Portal'')]"
    by (simp add: fieldsToValidate_of_def js_set_def js_assign_def)
  show ?thesis
    by (simp add: put_handler_def Let_def f fv created_slug stocked_game valid_title stored_of_def)
qed

text \<open>
  Claim C6, witness: an update of the sample record with \<^verbatim>\<open>{title: "Portal", id: 9}\<close>
  changes the title, refreshes \<^verbatim>\<open>updatedAt\<close> and ignores the \<^verbatim>\<open>id\<close>.
\<close>

theorem update_merges_partial_fields_witness:
  "\<not> rejected 2 stocked
       (put_handler (validateGame no_issues) [] 2 ''game'' ''a''
          (JObj [(''title'', JStr ''Portal''), (''id'', JNum 9)]) ''t2'' stocked)
   \<and> (\<exists>stored.
         cache (put_handler (validateGame no_issues) [] 2 ''game'' ''a''
                  (JObj [(''title'', JStr ''Portal''), (''id'', JNum 9)]) ''t2'' stocked) ''game''
           = [stored]
       \<and> get_prop stored ''title'' = Some (JStr ''Portal'')
       \<and> get_prop stored ''id'' = None
       \<and> get_prop stored ''slug'' = Some (JStr ''a'')
       \<and> get_prop stored ''createdAt'' = Some (JStr ''t1'')
       \<and> get_prop stored ''updatedAt'' = Some (JStr ''t2''))"
proof -
  let ?body = "JObj [(''title'', JStr ''Portal''), (''id'', JNum 9)]"
  have h: "\<not> rejected 2 stocked
             (put_handler (validateGame no_issues) [] 2 ''game'' ''a'' ?body ''t2'' stocked)"
    unfolding put_sample by (rule not_rejected_saveData)
  have "\<exists>i stored.
      findIndex (\<lambda>p. strict_eq (get_prop p ''slug'') (Some (JStr ''a''))) (cache stocked ''game'') = Some i
    \<and> cache (put_handler (validateGame no_issues) [] 2 ''game'' ''a'' ?body ''t2'' stocked) ''game''
             = (cache stocked ''game'')[i := stored]
    \<and> get_prop stored ''updatedAt'' = Some (JStr ''t2'')
    \<and> get_prop stored ''slug'' = Some (JStr ''a'')
    \<and> get_prop stored ''id'' = get_prop (cache stocked ''game'' ! i) ''id''
    \<and> get_prop stored ''createdAt'' = get_prop (cache stocked ''game'' ! i) ''createdAt''
    \<and> (\<forall>k. k \<notin> {''slug'', ''id'', ''createdAt'', ''updatedAt''} \<longrightarrow>
               get_prop stored k =
                 (case get_prop (js_spread [] (entries ?body)) k of
                    Some v \<Rightarrow> Some v | None \<Rightarrow> get_prop (cache stocked ''game'' ! i) k))"
    using update_merges_partial_fields [OF h] by (elim exE conjE) (intro exI conjI, assumption+)
  then obtain i stored where
    i: "findIndex (\<lambda>p. strict_eq (get_prop p ''slug'') (Some (JStr ''a''))) (cache stocked ''game'') = Some i"
    and c: "cache (put_handler (validateGame no_issues) [] 2 ''game'' ''a'' ?body ''t2'' stocked) ''game''
             = (cache stocked ''game'')[i := stored]"
    and u: "get_prop stored ''updatedAt'' = Some (JStr ''t2'')"
    and sl: "get_prop stored ''slug'' = Some (JStr ''a'')"
    and id: "get_prop stored ''id'' = get_prop (cache stocked ''game'' ! i) ''id''"
    and cr: "get_prop stored ''createdAt'' = get_prop (cache stocked ''game'' ! i) ''createdAt''"
    and other: "\<forall>k. k \<notin> {''slug'', ''id'', ''createdAt'', ''updatedAt''} \<longrightarrow>
               get_prop stored k =
                 (case get_prop (js_spread [] (entries ?body)) k of
                    Some v \<Rightarrow> Some v | None \<Rightarrow> get_prop (cache stocked ''game'' ! i) k)"
    by (elim exE conjE)
  have i0: "i = 0" using i find_a by simp
  have "get_prop (js_spread [] (entries ?body)) ''title'' = Some (JStr ''Portal'')"
    by (simp add: js_spread_def js_assign_def get_prop_def)
  moreover have "''title'' \<notin> {''slug'', ''id'', ''createdAt'', ''updatedAt''}"
    by simp
  ultimately have t: "get_prop stored ''title'' = Some (JStr ''Portal'')"
    using other by (metis option.simps(5))
  have "get_prop (created ''a'' ''t1'') ''id'' = None"
       "get_prop (created ''a'' ''t1'') ''createdAt'' = Some (JStr ''t1'')"
    by (simp_all add: created_def sample_game_def get_prop_def)
  then show ?thesis
    using h c u sl id cr t i0 by (simp add: stocked_game)
qed

section \<open>Unique slugs\<close>

lemma slugs_unique_append:
  "slugs_unique (xs @ [r]) \<longleftrightarrow> slugs_unique xs \<and> get_prop r ''slug'' \<notin> (\<lambda>r. get_prop r ''slug'') ` set xs"
  by (auto simp: slugs_unique_def)

lemma slugs_unique_filter: "slugs_unique xs \<Longrightarrow> slugs_unique (filter P xs)"
  by (simp add: slugs_unique_def distinct_map_filter)

lemma slugs_unique_update:
  assumes "i < length xs" and "get_prop r ''slug'' = get_prop (xs ! i) ''slug''"
  shows "slugs_unique (xs[i := r]) = slugs_unique xs"
proof -
  have "map (\<lambda>r. get_prop r ''slug'') (xs[i := r]) = map (\<lambda>r. get_prop r ''slug'') xs"
    using assms by (simp add: map_update list_update_same_conv)
  then show ?thesis by (simp add: slugs_unique_def)
qed

lemma post_handler_slugs:
  assumes "slugs_unique (cache s t)"
  shows "slugs_unique (cache (post_handler (validateGame issues) rid t' body now s) t)"
proof (cases "rejected rid s (post_handler (validateGame issues) rid t' body now s)")
  case True
  then show ?thesis using assms by (auto simp: rejected_def)
next
  case False
  from post_handler_accepted [OF this] obtain kvs where
    body: "body = JObj kvs" and valid: "validateGame issues body = Valid"
    and fresh: "\<not> list_ex (\<lambda>item. strict_eq (get_prop item ''slug'') (get_prop kvs ''slug'')) (cache s t')"
    and eq: "post_handler (validateGame issues) rid t' body now s =
               saveData t' (PostHandler rid t' (created_of kvs now))
                 (s\<lparr>cache := (cache s)(t' := cache s t' @ [created_of kvs now])\<rparr>)"
    by blast
  from validateGame_slug valid body obtain slug where slug: "get_prop kvs ''slug'' = Some (JStr slug)"
    by blast
  have "get_prop (created_of kvs now) ''slug'' \<notin> (\<lambda>r. get_prop r ''slug'') ` set (cache s t')"
    using fresh slug by (auto simp: list_ex_iff strict_eq_string get_prop_created_of)
  then show ?thesis
    using assms unfolding eq by (auto simp: slugs_unique_append)
qed

lemma put_handler_slugs:
  assumes "slugs_unique (cache s t)"
  shows "slugs_unique (cache (put_handler validator ro rid t' itemSlug body now s) t)"
proof (cases "rejected rid s (put_handler validator ro rid t' itemSlug body now s)")
  case True
  then show ?thesis using assms by (auto simp: rejected_def)
next
  case False
  from put_handler_accepted [OF this] obtain i where
    i: "findIndex (\<lambda>p. strict_eq (get_prop p ''slug'') (Some (JStr itemSlug))) (cache s t') = Some i"
    and eq: "put_handler validator ro rid t' itemSlug body now s =
               saveData t' (PutHandler rid t' i)
                 (s\<lparr>cache := (cache s)(t' := (cache s t')[i := stored_of (cache s t' ! i) body now])\<rparr>)"
    by blast
  have len: "i < length (cache s t')" using findIndex_Some [OF i] by simp
  have "get_prop (stored_of (cache s t' ! i) body now) ''slug'' = get_prop (cache s t' ! i) ''slug''"
    by (simp add: get_prop_stored_of get_prop_updatedFields)
  then show ?thesis
    using assms len unfolding eq by (auto simp: slugs_unique_update)
qed

lemma delete_handler_slugs:
  assumes "slugs_unique (cache s t)"
  shows "slugs_unique (cache (delete_handler rid t' itemId s) t)"
  using assms by (auto simp: delete_handler_def Let_def slugs_unique_filter)

lemma invalidItems_none:
  "invalidItems_of validator i items = Inr [] \<Longrightarrow> list_all (\<lambda>x. validator x = Valid) items"
proof (induction items arbitrary: i)
  case Nil
  then show ?case by simp
next
  case (Cons item items)
  then show ?case
    by (cases "validator item") (auto split: if_splits sum.splits)
qed

lemma objects_of_objects:
  "list_all (\<lambda>x. \<exists>kvs. x = JObj kvs) items \<Longrightarrow> map JObj (objects_of items) = items"
  by (induction items) auto

lemma check_loaded_objects:
  assumes "check_loaded issues t loadedData = Inr items"
  shows "loadedData = JArr items \<and> map JObj (objects_of items) = items"
proof -
  from assms obtain xs where arr: "loadedData = JArr xs"
    by (cases loadedData) (simp_all add: check_loaded_def)
  from assms arr have v: "invalidItems_of (validateGame issues) 0 xs = Inr []" and eq: "items = xs"
    by (auto simp: check_loaded_def validators_def split: if_splits sum.splits option.splits)
  have "list_all (\<lambda>x. \<exists>kvs. x = JObj kvs) xs"
    using invalidItems_none [OF v] by (auto simp: list_all_iff dest: validateGame_object)
  then show ?thesis using arr eq by (simp add: objects_of_objects)
qed

lemma loadData_parsed:
  assumes "loadData issues t (Parsed loadedData) s = Inr s'"
  shows "JArr (map JObj (cache s' t)) = loadedData"
  using assms
  by (auto simp: loadData_def split: sum.splits dest!: check_loaded_objects)

text \<open>
  Claim C8, as the specification states it (every operation that populates or mutates
  the cache, the Loader included, keeps the slugs of a collection unique), fails for the
  Loader: a \<^verbatim>\<open>game.json\<close> holding the same valid record twice passes the startup
  validation, the server listens, and the collection holds two records with one slug.
\<close>

theorem loader_keeps_duplicate_slugs:
  "map_option (\<lambda>s. (listening s, cache s ''game'', slugs_unique (cache s ''game'')))
     (run no_issues
        [Load ''game'' (Parsed (JArr [JObj (sample_game ''a''), JObj (sample_game ''a'')]))]
        (init_state (disk_holding [sample_game ''a'', sample_game ''a''])))
   = Some (True, [sample_game ''a'', sample_game ''a''], False)"
  by code_simp

text \<open>
  Claim C8, amended. Insert, update-by-slug and delete-by-id keep the slugs of every
  collection unique. The Loader validates each record against the schema and checks
  nothing across records: a collection it populates is the array of the file, record by
  record, so its slugs are unique exactly when those of the file are.
\<close>

theorem handlers_keep_slugs_unique_loader_keeps_file:
  assumes "slugs_unique (cache s t)"
  shows "slugs_unique (cache (post_handler (validateGame issues) rid t' body now s) t)
       \<and> slugs_unique (cache (put_handler validator readonlyProps rid t' itemSlug body now s) t)
       \<and> slugs_unique (cache (delete_handler rid t' itemId s) t)
       \<and> (\<forall>loadedData s0 s1. loadData issues t (Parsed loadedData) s0 = Inr s1 \<longrightarrow>
             JArr (map JObj (cache s1 t)) = loadedData)"
proof (intro conjI allI impI)
  show "slugs_unique (cache (post_handler (validateGame issues) rid t' body now s) t)"
    using assms by (rule post_handler_slugs)
  show "slugs_unique (cache (put_handler validator readonlyProps rid t' itemSlug body now s) t)"
    using assms by (rule put_handler_slugs)
  show "slugs_unique (cache (delete_handler rid t' itemId s) t)"
    using assms by (rule delete_handler_slugs)
  show "JArr (map JObj (cache s1 t)) = loadedData"
    if "loadData issues t (Parsed loadedData) s0 = Inr s1" for loadedData s0 s1
    using that by (rule loadData_parsed)
qed

text \<open>
  Claim C8, witness: the collection with the one sample record has unique slugs, and has
  them still after a create with a new slug (which is accepted: two records), an update
  and a delete.
\<close>

theorem handlers_keep_slugs_unique_loader_keeps_file_witness:
  "slugs_unique (cache stocked ''game'')
   \<and> slugs_unique
       (cache (post_handler (validateGame no_issues) 2 ''game'' (sample_body ''b'') ''t2'' stocked)
          ''game'')
   \<and> length (cache (post_handler (validateGame no_issues) 2 ''game'' (sample_body ''b'') ''t2''
                      stocked) ''game'') = 2
   \<and> slugs_unique
       (cache (put_handler (validateGame no_issues) [] 2 ''game'' ''a''
                 (JObj [(''title'', JStr ''Portal'')]) ''t2'' stocked) ''game'')
   \<and> slugs_unique (cache (delete_handler 2 ''game'' (Some 7) stocked) ''game'')"
proof -
  have h: "slugs_unique (cache stocked ''game'')"
    by (simp add: slugs_unique_def stocked_game)
  have l: "length (cache (post_handler (validateGame no_issues) 2 ''game'' (sample_body ''b'') ''t2''
                      stocked) ''game'') = 2"
    by code_simp
  from handlers_keep_slugs_unique_loader_keeps_file
         [OF h, where issues = no_issues and rid = 2 and t' = "''game''"
            and body = "sample_body ''b''" and now = "''t2''"]
       handlers_keep_slugs_unique_loader_keeps_file
         [OF h, where validator = "validateGame no_issues" and readonlyProps = "[]" and rid = 2
            and t' = "''game''" and itemSlug = "''a''" and body = "JObj [(''title'', JStr ''Portal'')]"
            and now = "''t2''"]
       handlers_keep_slugs_unique_loader_keeps_file
         [OF h, where rid = 2 and t' = "''game''" and itemId = "Some 7"]
       h l
  show ?thesis by blast
qed

section \<open>Persisting the same state twice\<close>

lemma resume_files [simp]: "files (resume w s) = files s"
  by (cases w) simp_all

lemma writeFile_settled_new:
  "files (writeFile_settled (length (in_flight s)) True (run_task (Task t w) s)) t
     = Some (JSON_stringify (cache s t))"
  by (simp add: writeFile_settled_def Let_def)

text \<open>
  Claim C9. A persistence task hands \<^verbatim>\<open>fs.writeFile\<close> the serialization of the collection
  as it is when the task runs, and a fulfilled write makes it the content of the file.
  So two tasks that find the same collection write the same bytes: the file after the
  second is, byte for byte, the file after the first.
\<close>

theorem same_cache_same_file_bytes:
  assumes "cache s2 t = cache s1 t"
  shows "write_data (last (in_flight (run_task (Task t w2) s2)))
           = write_data (last (in_flight (run_task (Task t w1) s1)))
       \<and> files (writeFile_settled (length (in_flight s1)) True (run_task (Task t w1) s1)) t
           = Some (JSON_stringify (cache s1 t))
       \<and> files (writeFile_settled (length (in_flight s2)) True (run_task (Task t w2) s2)) t
           = files (writeFile_settled (length (in_flight s1)) True (run_task (Task t w1) s1)) t"
  using assms by (simp add: writeFile_settled_new)

text \<open>
  Claim C9, witness: the collection with the sample record is persisted, and persisted
  again with the cache untouched; the file is the same.
\<close>

theorem same_cache_same_file_bytes_witness:
  "cache flushed ''game'' = cache stocked ''game''
   \<and> files flushed ''game'' = Some (JSON_stringify [created ''a'' ''t1''])
   \<and> files (writeFile_settled (length (in_flight flushed)) True
              (run_task (Task ''game'' (DeleteHandler 2)) flushed)) ''game''
       = files flushed ''game''"
proof -
  have h: "cache flushed ''game'' = cache stocked ''game''"
    by (simp add: flushed_def)
  from same_cache_same_file_bytes [OF h, where ?w1.0 = "DeleteHandler 1" and ?w2.0 = "DeleteHandler 2"] h
  show ?thesis
    by (simp add: flushed_def stocked_game)
qed

section \<open>The startup gate\<close>

text \<open>
  An invalid record is reported with its position, its \<^verbatim>\<open>id\<close> or \<^verbatim>\<open>sconosciuto\<close>, and its
  errors grouped by field; the report is wrapped in the message of a JSON syntax error,
  \<^verbatim>\<open>Promise.all\<close> rejects and the process exits.
\<close>

lemma ordinary_invalid_record_is_reported:
  "loadData issues ''game'' (Parsed (JArr [JObj []])) s
     = Inl (syntax_error ''game'' (validation_report ''game'' [(0, JStr ''sconosciuto'', issues (JObj []))]))"
  by (simp add: loadData_def check_loaded_def validators_def validateGame_def get_prop_def id_or_unknown_def)

text \<open>
  Claim C7 (the startup is abandoned when a file holds an invalid record, and the failure
  report enumerates every invalid record with its reasons). A \<^verbatim>\<open>game.json\<close> holding
  \<^verbatim>\<open>[{}, null]\<close> has two invalid records. The validation loop records the first and, at
  the second, reads \<^verbatim>\<open>item.id\<close> of \<^verbatim>\<open>null\<close>: the \<^verbatim>\<open>TypeError\<close> is caught by the \<^verbatim>\<open>catch\<close>
  meant for \<^verbatim>\<open>JSON.parse\<close>, and the message the startup fails with is that of a JSON
  syntax error quoting the \<^verbatim>\<open>TypeError\<close>. Neither record is enumerated.
\<close>

theorem null_record_hides_the_invalid_records:
  "loadData issues ''game'' (Parsed (JArr [JObj [], JNull])) s
     = Inl (syntax_error ''game'' TypeError_null_id)"
  by (simp add: loadData_def check_loaded_def validators_def validateGame_def get_prop_def)

section \<open>What holds in every state the process reaches\<close>

text \<open>
  The write queues are idle whenever the event loop is between two callbacks: a task is
  shifted off in the call of \<^verbatim>\<open>saveData\<close> that pushed it. The queue never holds a task
  for a running drain loop to pick up, and \<^verbatim>\<open>processWriteQueue\<close> never reaches its
  \<^verbatim>\<open>setImmediate\<close>.
\<close>

lemma resume_queues [simp]:
  "writeQueues (resume w s) = writeQueues s" "immediates (resume w s) = immediates s"
  by (cases w; simp add: reply_def)+

lemma idle_exited [simp]: "idle (s\<lparr>exited := x\<rparr>) = idle s"
  by (simp add: idle_def)

lemma idle_saveData: "idle s \<Longrightarrow> idle (saveData t w (s\<lparr>cache := c\<rparr>))"
  by (simp add: idle_def saveData_idle)

lemma idle_reply: "idle s \<Longrightarrow> idle (reply rid r s)"
  by (simp add: idle_def reply_def)

lemma idle_rejected: "idle s \<Longrightarrow> rejected rid s s' \<Longrightarrow> idle s'"
  by (auto simp: rejected_def idle_reply)

lemma idle_writeFile_settled: "idle s \<Longrightarrow> idle (writeFile_settled i ok s)"
  by (simp add: idle_def writeFile_settled_def Let_def processWriteQueue_resume_def)

lemma idle_loadData: "idle s \<Longrightarrow> loadData issues t found (s\<lparr>load_started := l\<rparr>) = Inr s' \<Longrightarrow> idle s'"
  by (auto simp: loadData_def idle_def saveData_idle split: file_read.splits sum.splits)

lemma exec_idle:
  assumes "exec issues ev s = Some s'" and "idle s"
  shows "idle s'"
proof (cases ev)
  case (Load t found)
  then show ?thesis
    using assms
    by (auto simp: exec_def idle_loadData split: if_splits sum.splits)
next
  case (Post rid t body now)
  then obtain v where "s' = post_handler v rid t body now s"
    using assms by (auto simp: exec_def split: if_splits option.splits)
  then show ?thesis
    using post_handler_cases [of rid s v t body now] assms(2)
    by (auto simp: idle_rejected idle_saveData)
next
  case (Put rid t itemSlug body now)
  then obtain v where "s' = put_handler v (typeReadonlyProps t) rid t itemSlug body now s"
    using assms by (auto simp: exec_def split: if_splits option.splits)
  then show ?thesis
    using put_handler_cases [of rid s v "typeReadonlyProps t" t itemSlug body now] assms(2)
    by (auto simp: idle_rejected idle_saveData)
next
  case (Delete rid t itemId)
  then have "s' = delete_handler rid t itemId s"
    using assms by (auto simp: exec_def split: if_splits)
  then show ?thesis
    using delete_handler_cases [of rid s t itemId] assms(2)
    by (auto simp: idle_rejected idle_saveData)
next
  case (WriteSettled i ok)
  then show ?thesis
    using assms by (auto simp: exec_def idle_writeFile_settled split: if_splits)
next
  case RunImmediate
  then show ?thesis
    using assms by (auto simp: exec_def idle_def split: if_splits list.splits)
qed

lemma run_idle:
  assumes "run issues evs s = Some s'" and "idle s"
  shows "idle s'"
  using assms
proof (induction evs arbitrary: s)
  case Nil
  then show ?case by simp
next
  case (Cons ev evs)
  from Cons.prems(1) obtain s1 where s1: "exec issues ev s = Some s1" and r: "run issues evs s1 = Some s'"
    by (auto split: option.splits)
  show ?case using Cons.IH [OF r exec_idle [OF s1 Cons.prems(2)]] .
qed

lemma queue_is_always_empty:
  assumes "run issues evs (init_state disk) = Some s"
  shows "writeQueues s t = [] \<and> immediates s = []"
  using run_idle [OF assms] by (simp add: idle_def init_state_def)

end
